theory Spec2Isabelle
  imports Complex_Main
begin

section \<open>MoveNet pose decoding and the skip/refresh cache (src/body/movenet.ts)\<close>

text \<open>
  Numbers. A JavaScript number is an IEEE double, and every finite double is a rational:
  scores, coordinates and box corners are modelled as rationals. The arithmetic on
  coordinates (the CoordinateMapper and the differences of createBox) is that of doubles:
  each operation is the exact one followed by \<open>fl\<close>, the rounding to the nearest double,
  ties to even (below, magnitudes stay under \<open>2^1024\<close>, so no operation overflows). The
  two-decimal rounding of a score is modelled on the rationals. Pixel positions are
  results of \<^verbatim>\<open>Math.round\<close> and are integers. The entries of a bounding box are the
  results of \<^verbatim>\<open>Math.min(...xs)\<close> and \<^verbatim>\<open>Math.max(...xs)\<close>, which are infinite on an
  empty argument list, so a box entry is a \<open>jsnum\<close>: a finite number, an infinity or NaN.
\<close>

text \<open>The number of binary digits of a natural number.\<close>

fun bit_length :: "nat \<Rightarrow> nat" where
  "bit_length n = (if n = 0 then 0 else Suc (bit_length (n div 2)))"

declare bit_length.simps [simp del]

definition pow2 :: "int \<Rightarrow> rat" where
  "pow2 k = (if 0 \<le> k then 2 ^ nat k else 1 / 2 ^ nat (- k))"

text \<open>The binary exponent of a positive rational: \<open>2 ^ e \<le> a < 2 ^ (e + 1)\<close>.\<close>

definition exponent :: "rat \<Rightarrow> int" where
  "exponent a =
     (if 1 \<le> a then int (bit_length (nat \<lfloor>a\<rfloor>)) - 1
      else - int (bit_length (nat (- \<lfloor>- (1 / a)\<rfloor> - 1))))"

text \<open>
  The nearest double: 53 significant bits, the smallest unit \<open>2^-1074\<close> (subnormals), a
  tie going to the even significand.
\<close>

definition fl :: "rat \<Rightarrow> rat" where
  "fl x =
     (if x = 0 then 0
      else
        (let u = pow2 (max (exponent \<bar>x\<bar>) (- 1022) - 52);
             q = x / u;
             n = \<lfloor>q\<rfloor>;
             r = q - of_int n;
             m = (if r < 1 / 2 then n else if 1 / 2 < r then n + 1
                  else if even n then n else n + 1)
         in of_int m * u))"

text \<open>\<^verbatim>\<open>a + b\<close>, \<^verbatim>\<open>a - b\<close> and \<^verbatim>\<open>a * b\<close> on finite doubles.\<close>

definition double_add :: "rat \<Rightarrow> rat \<Rightarrow> rat" where
  "double_add a b = fl (a + b)"

definition double_sub :: "rat \<Rightarrow> rat \<Rightarrow> rat" where
  "double_sub a b = fl (a - b)"

definition double_mul :: "rat \<Rightarrow> rat \<Rightarrow> rat" where
  "double_mul a b = fl (a * b)"

datatype jsnum = Fin rat | PInf | NInf | NaN

text \<open>\<^verbatim>\<open>a - b\<close> on doubles, with the infinities written out.\<close>

fun js_sub :: "jsnum \<Rightarrow> jsnum \<Rightarrow> jsnum" where
  "js_sub NaN b = NaN"
| "js_sub a NaN = NaN"
| "js_sub (Fin a) (Fin b) = Fin (double_sub a b)"
| "js_sub (Fin a) PInf = NInf"
| "js_sub (Fin a) NInf = PInf"
| "js_sub PInf PInf = NaN"
| "js_sub PInf b = PInf"
| "js_sub NInf NInf = NaN"
| "js_sub NInf b = NInf"

text \<open>\<^verbatim>\<open>Math.min(...xs)\<close> and \<^verbatim>\<open>Math.max(...xs)\<close> of a list of finite numbers.\<close>

fun math_min :: "rat list \<Rightarrow> jsnum" where
  "math_min [] = PInf"
| "math_min (x # xs) = Fin (fold min xs x)"

fun math_max :: "rat list \<Rightarrow> jsnum" where
  "math_max [] = NInf"
| "math_max (x # xs) = Fin (fold max xs x)"

text \<open>\<^verbatim>\<open>Math.round(x)\<close>: the nearest integer, a tie going up.\<close>

definition math_round :: "rat \<Rightarrow> int" where
  "math_round x = \<lfloor>x + 1 / 2\<rfloor>"

text \<open>\<^verbatim>\<open>Math.round(100 * score) / 100\<close>, the two-decimal score that is stored.\<close>

definition round2 :: "rat \<Rightarrow> rat" where
  "round2 s = of_int (math_round (100 * s)) / 100"

text \<open>
  \<^verbatim>\<open>skipped++\<close> on a double. The counter starts at \<^verbatim>\<open>Number.MAX_SAFE_INTEGER\<close>
  \<open>= 2^53 - 1\<close>; one increment gives \<open>2^53\<close> exactly, and \<open>2^53 + 1\<close> is not a double:
  the sum rounds back to \<open>2^53\<close>, so the counter stays there.
\<close>

definition MAX_SAFE_INTEGER :: nat where
  "MAX_SAFE_INTEGER = 2 ^ 53 - 1"

definition js_incr :: "nat \<Rightarrow> nat" where
  "js_incr n = (if n < 2 ^ 53 then n + 1 else n)"

subsection \<open>Data\<close>

type_synonym Point = "rat \<times> rat"
type_synonym Pixel = "int \<times> int"

text \<open>A box of the cache and of the decoders' \<^verbatim>\<open>inputBox\<close>: \<open>(y0, x0, y1, x1)\<close>.\<close>

type_synonym YxBox = "rat \<times> rat \<times> rat \<times> rat"

text \<open>The \<^verbatim>\<open>Box\<close> of a result: \<open>(x, y, width, height)\<close>.\<close>

type_synonym Box = "jsnum \<times> jsnum \<times> jsnum \<times> jsnum"

text \<open>
  \<^verbatim>\<open>BodyKeypoint\<close>. \<open>part\<close> is \<^verbatim>\<open>coords.kpt[id]\<close>, which is \<^verbatim>\<open>undefined\<close> (\<open>None\<close>)
  when the index is outside the table.
\<close>

record BodyKeypoint =
  score :: rat
  part :: "string option"
  positionRaw :: Point
  position :: Pixel

text \<open>
  The module has one array \<^verbatim>\<open>keypoints\<close> that both decoders clear and refill. The
  \<^verbatim>\<open>keypoints\<close> field of a result is a reference: either to that module-level array
  (\<open>Shared\<close>), or to an array of the result's own (\<open>Own\<close>, made by \<^verbatim>\<open>[...keypoints]\<close>).
\<close>

datatype KeypointsRef = Shared | Own "BodyKeypoint list"

record BodyResult =
  body_id :: nat
  body_score :: rat
  box :: Box
  boxRaw :: Box
  body_keypoints :: KeypointsRef
  annotations :: "(string \<times> (Pixel \<times> Pixel) list) list"

text \<open>
  The configuration fields that are read: \<^verbatim>\<open>config.body.minConfidence\<close>,
  \<^verbatim>\<open>config.body.maxDetected\<close>, \<^verbatim>\<open>config.body.skipFrames\<close> (the refresh threshold) and
  \<^verbatim>\<open>config.skipFrame\<close> (tracking enabled). The two counts are natural numbers:
  assigning a negative or fractional \<^verbatim>\<open>maxDetected\<close> to \<^verbatim>\<open>bodies.length\<close> throws.
\<close>

record Config =
  minConfidence :: rat
  maxDetected :: nat
  skipFrames :: nat
  skipFrame :: bool

text \<open>
  The tables of \<^verbatim>\<open>movenetcoords\<close> (\<^verbatim>\<open>coords.kpt\<close>, the part names by index, and
  \<^verbatim>\<open>coords.connected\<close>, the chains of part names in the order of
  \<^verbatim>\<open>Object.entries\<close>) are a parameter of the decoders.
\<close>

record Coords =
  kpt :: "string list"
  connected :: "(string \<times> string list) list"

definition kpt_at :: "Coords \<Rightarrow> nat \<Rightarrow> string option" where
  "kpt_at cs i = (if i < length (kpt cs) then Some (kpt cs ! i) else None)"

text \<open>
  The array of an inference result. \<^verbatim>\<open>t.res.shape[2] === 17\<close> holds for the
  single-pose tensor of shape \<open>[1, 1, 17, 3]\<close>, whose \<^verbatim>\<open>res[0][0]\<close> is a list of
  \<open>(y, x, score)\<close> triples; any other tensor is decoded as multi-pose, \<^verbatim>\<open>res[0]\<close>
  being a list of slots, each a flat list of numbers.
\<close>

datatype RawOutput =
  SinglePose "(rat \<times> rat \<times> rat) list"
| MultiPose "rat list list"

text \<open>An inference call, for the log of calls made.\<close>

datatype Inference = CropInference YxBox | FullInference

text \<open>
  The module-level variables: \<^verbatim>\<open>model\<close> (only whether predict's guard
  \<^verbatim>\<open>!model || !model?.inputs[0].shape\<close> lets the frame through), \<^verbatim>\<open>cachedBoxes\<close>,
  \<^verbatim>\<open>skipped\<close> and \<^verbatim>\<open>keypoints\<close>; and \<open>inferences\<close>, the log of the calls of
  \<^verbatim>\<open>model.predict\<close> made so far, latest last.
\<close>

record State =
  model_loaded :: bool
  cachedBoxes :: "YxBox list"
  skipped :: nat
  keypoints :: "BodyKeypoint list"
  inferences :: "Inference list"

text \<open>
  The module once \<^verbatim>\<open>load\<close> has set \<^verbatim>\<open>model\<close> and before the first frame:
  \<^verbatim>\<open>cachedBoxes = []\<close>, \<^verbatim>\<open>skipped = Number.MAX_SAFE_INTEGER\<close>, \<^verbatim>\<open>keypoints = []\<close>.
\<close>

definition initial_state :: State where
  "initial_state =
     \<lparr>model_loaded = True, cachedBoxes = [], skipped = MAX_SAFE_INTEGER,
      keypoints = [], inferences = []\<rparr>"

text \<open>What a result's \<^verbatim>\<open>keypoints\<close> field holds when it is read in state \<open>st\<close>.\<close>

definition keypoints_of :: "State \<Rightarrow> BodyResult \<Rightarrow> BodyKeypoint list" where
  "keypoints_of st b = (case body_keypoints b of Shared \<Rightarrow> keypoints st | Own ks \<Rightarrow> ks)"

text \<open>
  The input tensor of a frame: its \<^verbatim>\<open>shape[2]\<close> (width) and \<^verbatim>\<open>shape[1]\<close> (height), and
  what the model answers on the crop of a box and on the whole frame (the inference
  collaborator, which does not touch the module's state).
\<close>

record Frame =
  width :: nat
  height :: nat
  infer_crop :: "YxBox \<Rightarrow> RawOutput"
  infer_full :: RawOutput

subsection \<open>createBox\<close>

definition createBox :: "BodyKeypoint list \<Rightarrow> Box \<times> Box" where
  "createBox points =
     (let x = map (\<lambda>a. of_int (fst (position a))) points;
          y = map (\<lambda>a. of_int (snd (position a))) points;
          box = (math_min x, math_min y,
                 js_sub (math_max x) (math_min x), js_sub (math_max y) (math_min y));
          xRaw = map (\<lambda>a. fst (positionRaw a)) points;
          yRaw = map (\<lambda>a. snd (positionRaw a)) points;
          boxRaw = (math_min xRaw, math_min yRaw,
                    js_sub (math_max xRaw) (math_min xRaw),
                    js_sub (math_max yRaw) (math_min yRaw))
      in (box, boxRaw))"

subsection \<open>Keypoints and annotations\<close>

text \<open>
  The keypoint that both decoders push for part index \<open>i\<close>, raw triple \<open>(y, x, s)\<close>:
  \<^verbatim>\<open>positionRaw = [(inputBox[3] - inputBox[1]) * x + inputBox[1],
  (inputBox[2] - inputBox[0]) * y + inputBox[0]]\<close> and
  \<^verbatim>\<open>position = [Math.round((image.shape[2] || 0) * positionRaw[0]),
  Math.round((image.shape[1] || 0) * positionRaw[1])]\<close>.
\<close>

definition make_keypoint ::
  "Coords \<Rightarrow> nat \<times> nat \<Rightarrow> YxBox \<Rightarrow> nat \<Rightarrow> rat \<Rightarrow> rat \<Rightarrow> rat \<Rightarrow> BodyKeypoint" where
  "make_keypoint cs img inputBox i y x s =
     (case inputBox of (b0, b1, b2, b3) \<Rightarrow>
        let positionRaw = (double_add (double_mul (double_sub b3 b1) x) b1,
                           double_add (double_mul (double_sub b2 b0) y) b0)
        in \<lparr>score = round2 s, part = kpt_at cs i, positionRaw = positionRaw,
            position = (math_round (double_mul (of_nat (fst img)) (fst positionRaw)),
                        math_round (double_mul (of_nat (snd img)) (snd positionRaw)))\<rparr>)"

text \<open>
  The annotations loop, the same in both decoders: for each chain, the consecutive pairs
  of names both found in \<^verbatim>\<open>keypoints\<close> (\<^verbatim>\<open>find\<close> returns the first match) with stored
  scores above \<^verbatim>\<open>config.body.minConfidence || 0\<close>.
\<close>

fun segments ::
  "Config \<Rightarrow> BodyKeypoint list \<Rightarrow> string list \<Rightarrow> (Pixel \<times> Pixel) list" where
  "segments cfg kps (a # b # rest) =
     (case (find (\<lambda>kp. part kp = Some a) kps, find (\<lambda>kp. part kp = Some b) kps) of
        (Some pt0, Some pt1) \<Rightarrow>
          (if score pt0 > minConfidence cfg \<and> score pt1 > minConfidence cfg
           then [(position pt0, position pt1)] else [])
      | _ \<Rightarrow> [])
     @ segments cfg kps (b # rest)"
| "segments cfg kps _ = []"

definition make_annotations ::
  "Coords \<Rightarrow> Config \<Rightarrow> BodyKeypoint list \<Rightarrow> (string \<times> (Pixel \<times> Pixel) list) list" where
  "make_annotations cs cfg kps =
     map (\<lambda>(name, indexes). (name, segments cfg kps indexes)) (connected cs)"

subsection \<open>parseSinglePose\<close>

text \<open>The loop \<^verbatim>\<open>for (let id = 0; id < kpt.length; id++)\<close>, from index \<open>id\<close> on.\<close>

fun single_loop ::
  "Coords \<Rightarrow> Config \<Rightarrow> nat \<times> nat \<Rightarrow> YxBox \<Rightarrow> nat \<Rightarrow> (rat \<times> rat \<times> rat) list \<Rightarrow>
   BodyKeypoint list \<Rightarrow> BodyKeypoint list" where
  "single_loop cs cfg img inputBox i [] acc = acc"
| "single_loop cs cfg img inputBox i ((y, x, s) # rest) acc =
     single_loop cs cfg img inputBox (Suc i) rest
       (if s > minConfidence cfg then acc @ [make_keypoint cs img inputBox i y x s]
        else acc)"

text \<open>\<^verbatim>\<open>keypoints.reduce((prev, curr) => (curr.score > prev ? curr.score : prev), 0)\<close>\<close>

definition max_score :: "BodyKeypoint list \<Rightarrow> rat" where
  "max_score kps = fold (\<lambda>curr prev. if score curr > prev then score curr else prev) kps 0"

definition parseSinglePose ::
  "Coords \<Rightarrow> Config \<Rightarrow> nat \<times> nat \<Rightarrow> YxBox \<Rightarrow> (rat \<times> rat \<times> rat) list \<Rightarrow> State \<Rightarrow>
   BodyResult list \<times> State" where
  "parseSinglePose cs cfg img inputBox kpt0 st =
     (let kps = single_loop cs cfg img inputBox 0 kpt0 [];
          st' = st\<lparr>keypoints := kps\<rparr>;
          (bx, bxRaw) = createBox kps
      in ([\<lparr>body_id = 0, body_score = max_score kps, box = bx, boxRaw = bxRaw,
            body_keypoints = Shared, annotations = make_annotations cs cfg kps\<rparr>], st'))"

subsection \<open>parseMultiPose\<close>

text \<open>
  The loop \<^verbatim>\<open>for (let i = 0; i < 17; i++)\<close> over one slot. It runs only when
  \<^verbatim>\<open>kpt[55]\<close> is a number, so every index \<open>3 * i + 2 \<le> 50\<close> it reads is in range.
\<close>

definition slot_keypoints ::
  "Coords \<Rightarrow> Config \<Rightarrow> nat \<times> nat \<Rightarrow> YxBox \<Rightarrow> rat list \<Rightarrow> BodyKeypoint list" where
  "slot_keypoints cs cfg img inputBox slot =
     fold (\<lambda>i acc.
             if slot ! (3 * i + 2) > minConfidence cfg
             then acc @ [make_keypoint cs img inputBox i
                           (slot ! (3 * i + 0)) (slot ! (3 * i + 1)) (slot ! (3 * i + 2))]
             else acc)
          [0..<17] []"

text \<open>The body that is pushed for slot \<open>i\<close>, once \<^verbatim>\<open>keypoints\<close> is refilled from it.\<close>

definition slot_body ::
  "Coords \<Rightarrow> Config \<Rightarrow> nat \<times> nat \<Rightarrow> YxBox \<Rightarrow> nat \<Rightarrow> rat list \<Rightarrow> BodyResult" where
  "slot_body cs cfg img inputBox i slot =
     (let totalScore = round2 (slot ! 55);
          kps = slot_keypoints cs cfg img inputBox slot;
          (bx, bxRaw) = createBox kps
      in \<lparr>body_id = i, body_score = totalScore, box = bx, boxRaw = bxRaw,
          body_keypoints = Own kps, annotations = make_annotations cs cfg kps\<rparr>)"

text \<open>
  One round of the loop over the slots. \<^verbatim>\<open>kpt[51 + 4]\<close> of a slot with fewer than 56
  entries is \<^verbatim>\<open>undefined\<close>, \<^verbatim>\<open>totalScore\<close> is NaN and the comparison is false.
\<close>

definition multi_slot ::
  "Coords \<Rightarrow> Config \<Rightarrow> nat \<times> nat \<Rightarrow> YxBox \<Rightarrow> nat \<times> rat list \<Rightarrow>
   BodyResult list \<times> State \<Rightarrow> BodyResult list \<times> State" where
  "multi_slot cs cfg img inputBox islot acc =
     (case (islot, acc) of ((i, slot), (bodies, st)) \<Rightarrow>
        if 55 < length slot \<and> round2 (slot ! 55) > minConfidence cfg
        then (bodies @ [slot_body cs cfg img inputBox i slot],
              st\<lparr>keypoints := slot_keypoints cs cfg img inputBox slot\<rparr>)
        else (bodies, st))"

text \<open>
  \<^verbatim>\<open>bodies.sort((a, b) => b.score - a.score)\<close>: a stable sort, descending in the score.
\<close>

definition sort_bodies :: "BodyResult list \<Rightarrow> BodyResult list" where
  "sort_bodies bodies = sort_key (\<lambda>b. - body_score b) bodies"

text \<open>The loop \<^verbatim>\<open>for (let id = 0; id < res[0].length; id++)\<close>.\<close>

definition multi_loop ::
  "Coords \<Rightarrow> Config \<Rightarrow> nat \<times> nat \<Rightarrow> YxBox \<Rightarrow> rat list list \<Rightarrow> State \<Rightarrow>
   BodyResult list \<times> State" where
  "multi_loop cs cfg img inputBox res0 st =
     fold (multi_slot cs cfg img inputBox) (zip [0..<length res0] res0) ([], st)"

definition parseMultiPose ::
  "Coords \<Rightarrow> Config \<Rightarrow> nat \<times> nat \<Rightarrow> YxBox \<Rightarrow> rat list list \<Rightarrow> State \<Rightarrow>
   BodyResult list \<times> State" where
  "parseMultiPose cs cfg img inputBox res0 st =
     (case multi_loop cs cfg img inputBox res0 st of
        (bodies, st') \<Rightarrow>
          (let sorted = sort_bodies bodies
           in (if length sorted > maxDetected cfg then take (maxDetected cfg) sorted
               else sorted, st')))"

subsection \<open>predict\<close>

text \<open>
  \<^verbatim>\<open>(t.res.shape[2] === 17) ? parseSinglePose(...) : parseMultiPose(...)\<close>
\<close>

definition parse_result ::
  "Coords \<Rightarrow> Config \<Rightarrow> nat \<times> nat \<Rightarrow> YxBox \<Rightarrow> RawOutput \<Rightarrow> State \<Rightarrow>
   BodyResult list \<times> State" where
  "parse_result cs cfg img inputBox res st =
     (case res of
        SinglePose kpt0 \<Rightarrow> parseSinglePose cs cfg img inputBox kpt0 st
      | MultiPose res0 \<Rightarrow> parseMultiPose cs cfg img inputBox res0 st)"

text \<open>The loop over \<^verbatim>\<open>cachedBoxes\<close>: one inference per box, the results concatenated.\<close>

fun cached_loop ::
  "Coords \<Rightarrow> Frame \<Rightarrow> Config \<Rightarrow> YxBox list \<Rightarrow> BodyResult list \<times> State \<Rightarrow>
   BodyResult list \<times> State" where
  "cached_loop cs input cfg [] acc = acc"
| "cached_loop cs input cfg (b # bs) (bodies, st) =
     (case parse_result cs cfg (width input, height input) b (infer_crop input b)
             (st\<lparr>inferences := inferences st @ [CropInference b]\<rparr>) of
        (newBodies, st') \<Rightarrow> cached_loop cs input cfg bs (bodies @ newBodies, st'))"

text \<open>
  The full-frame branch, guarded by
  \<^verbatim>\<open>(bodies.length !== config.body.maxDetected) && (skipped > (config.body.skipFrames || 0))\<close>.
\<close>

definition full_frame ::
  "Coords \<Rightarrow> Frame \<Rightarrow> Config \<Rightarrow> BodyResult list \<times> State \<Rightarrow> BodyResult list \<times> State" where
  "full_frame cs input cfg acc =
     (case acc of (bodies, st) \<Rightarrow>
        if length bodies \<noteq> maxDetected cfg \<and> skipped st > skipFrames cfg
        then
          (case parse_result cs cfg (width input, height input) (0, 0, 1, 1)
                  (infer_full input) (st\<lparr>inferences := inferences st @ [FullInference]\<rparr>) of
             (bodies', st') \<Rightarrow> (bodies', st'\<lparr>cachedBoxes := [], skipped := 0\<rparr>))
        else (bodies, st))"

text \<open>
  The last block: with \<^verbatim>\<open>config.skipFrame\<close> the cache is rebuilt from the bodies that
  have more than 10 keypoints. \<open>scale\<close> is \<^verbatim>\<open>(kpts, f, size) => scale(kpts, f, size).yxBox\<close>
  of \<^verbatim>\<open>util/box\<close>, a parameter.
\<close>

definition update_cache ::
  "(Pixel list \<Rightarrow> rat \<Rightarrow> nat \<times> nat \<Rightarrow> YxBox) \<Rightarrow> Frame \<Rightarrow> Config \<Rightarrow>
   BodyResult list \<times> State \<Rightarrow> BodyResult list \<times> State" where
  "update_cache scale input cfg acc =
     (case acc of (bodies, st) \<Rightarrow>
        if skipFrame cfg
        then (bodies,
              st\<lparr>cachedBoxes :=
                   fold (\<lambda>b boxes.
                           if length (keypoints_of st b) > 10
                           then boxes @ [scale (map position (keypoints_of st b)) (3 / 2)
                                           (width input, height input)]
                           else boxes)
                        bodies []\<rparr>)
        else (bodies, st))"

text \<open>
  The head of predict: \<^verbatim>\<open>if (!config.skipFrame) cachedBoxes.length = 0; skipped++;\<close>
\<close>

definition begin_frame :: "Config \<Rightarrow> State \<Rightarrow> State" where
  "begin_frame cfg st =
     (let st1 = (if \<not> skipFrame cfg then st\<lparr>cachedBoxes := []\<rparr> else st)
      in st1\<lparr>skipped := js_incr (skipped st1)\<rparr>)"

text \<open>The bodies and the state after the loop over the cached boxes.\<close>

definition accumulated ::
  "Coords \<Rightarrow> Frame \<Rightarrow> Config \<Rightarrow> State \<Rightarrow> BodyResult list \<times> State" where
  "accumulated cs input cfg st =
     cached_loop cs input cfg (cachedBoxes (begin_frame cfg st)) ([], begin_frame cfg st)"

definition predict ::
  "Coords \<Rightarrow> (Pixel list \<Rightarrow> rat \<Rightarrow> nat \<times> nat \<Rightarrow> YxBox) \<Rightarrow> Frame \<Rightarrow> Config \<Rightarrow> State \<Rightarrow>
   BodyResult list \<times> State" where
  "predict cs scale input cfg st =
     (if \<not> model_loaded st then ([], st)
      else update_cache scale input cfg (full_frame cs input cfg (accumulated cs input cfg st)))"

text \<open>The state after a sequence of frames, each with its configuration.\<close>

definition predict_all ::
  "Coords \<Rightarrow> (Pixel list \<Rightarrow> rat \<Rightarrow> nat \<times> nat \<Rightarrow> YxBox) \<Rightarrow> (Frame \<times> Config) list \<Rightarrow> State \<Rightarrow>
   State" where
  "predict_all cs scale fs st = fold (\<lambda>(input, cfg) s. snd (predict cs scale input cfg s)) fs st"

subsection \<open>The collaborators that are not part of movenet.ts\<close>

text \<open>
  Modelled from the spec: \<^verbatim>\<open>scale\<close> of \<^verbatim>\<open>util/box\<close> (the box-scaling collaborator
  \<^verbatim>\<open>enclose(points, paddingFactor, imageDims) -> normalizedBox\<close>) is missing from the
  sources. The spec: the points are enclosed in an axis-aligned box, the box is padded
  by the factor, relative to the image's pixel dimensions, and expressed in normalized
  \<open>(y0, x0, y1, x1)\<close> form. Here: the bounding rectangle of the points, scaled by the
  factor about its centre, each coordinate divided by the image's width or height.
  It is only called with more than 10 points.
\<close>

definition scale :: "Pixel list \<Rightarrow> rat \<Rightarrow> nat \<times> nat \<Rightarrow> YxBox" where
  "scale pts f outputSize =
     (let xs = map (\<lambda>p. of_int (fst p)) pts; ys = map (\<lambda>p. of_int (snd p)) pts;
          minx = fold min xs (hd xs); maxx = fold max xs (hd xs);
          miny = fold min ys (hd ys); maxy = fold max ys (hd ys);
          cx = (minx + maxx) / 2; cy = (miny + maxy) / 2;
          hw = f * (maxx - minx) / 2; hh = f * (maxy - miny) / 2;
          w = of_nat (fst outputSize); h = of_nat (snd outputSize)
      in ((cy - hh) / h, (cx - hw) / w, (cy + hh) / h, (cx + hw) / w))"

text \<open>
  A table of part names and chains for the evaluations below, which need a concrete one;
  no theorem depends on what it holds.
\<close>

definition sample_coords :: Coords where
  "sample_coords =
     \<lparr>kpt = [''nose'', ''leftEye'', ''rightEye'', ''leftEar'', ''rightEar'',
             ''leftShoulder'', ''rightShoulder'', ''leftElbow'', ''rightElbow'',
             ''leftWrist'', ''rightWrist'', ''leftHip'', ''rightHip'', ''leftKnee'',
             ''rightKnee'', ''leftAnkle'', ''rightAnkle''],
      connected = [(''leftArm'', [''leftShoulder'', ''leftElbow'', ''leftWrist''])]\<rparr>"

subsection \<open>Reading the model\<close>

text \<open>The inference calls made between a state and a later one.\<close>

definition new_inferences :: "State \<Rightarrow> State \<Rightarrow> Inference list" where
  "new_inferences st st' = drop (length (inferences st)) (inferences st')"

text \<open>
  The CoordinateMapper in the words of the specification, to compare the decoders with:
  \<open>positionRaw.x = (x1 - x0) * kptX + x0\<close>, \<open>positionRaw.y = (y1 - y0) * kptY + y0\<close>,
  \<open>position = round(positionRaw * imageDimensions)\<close>, for the reference box
  \<open>(y0, x0, y1, x1)\<close> and the image's width and height, in the arithmetic of doubles.
\<close>

definition CoordinateMapper :: "nat \<times> nat \<Rightarrow> YxBox \<Rightarrow> rat \<times> rat \<Rightarrow> Point \<times> Pixel" where
  "CoordinateMapper dims ref k =
     (case (dims, ref, k) of ((w, h), (y0, x0, y1, x1), (kptY, kptX)) \<Rightarrow>
        (let rawX = double_add (double_mul (double_sub x1 x0) kptX) x0;
             rawY = double_add (double_mul (double_sub y1 y0) kptY) y0
         in ((rawX, rawY),
             (math_round (double_mul rawX (of_nat w)),
              math_round (double_mul rawY (of_nat h))))))"

text \<open>
  A multi-pose slot of 56 numbers: 17 triples \<open>(y, x, score)\<close>, the four numbers of the
  network's box, and the aggregate score at index 55.
\<close>

definition slot_of :: "(rat \<times> rat \<times> rat) list \<Rightarrow> rat \<Rightarrow> rat list" where
  "slot_of triples totalScore =
     concat (map (\<lambda>(y, x, s). [y, x, s]) triples) @ [0, 0, 1, 1, totalScore]"

text \<open>Frames that answer the same on every crop and on the whole image.\<close>

definition frame_of :: "nat \<Rightarrow> nat \<Rightarrow> RawOutput \<Rightarrow> Frame" where
  "frame_of w h res = \<lparr>width = w, height = h, infer_crop = (\<lambda>b. res), infer_full = res\<rparr>"

text \<open>
  The \<open>(y, x, score)\<close> triples that a decoder reads from a raw output: all of a
  single-pose output, and the 17 leading triples of every multi-pose slot that has its
  aggregate score (index 55).
\<close>

fun raw_keypoints :: "RawOutput \<Rightarrow> (rat \<times> rat \<times> rat) list" where
  "raw_keypoints (SinglePose kpt0) = kpt0"
| "raw_keypoints (MultiPose res0) =
     concat (map (\<lambda>slot. map (\<lambda>i. (slot ! (3 * i), slot ! (3 * i + 1), slot ! (3 * i + 2)))
                              [0..<17])
                 (filter (\<lambda>slot. 55 < length slot) res0))"

text \<open>
  The \<open>(y, x, score)\<close> triples from which the pose with id \<open>i\<close> is decoded: all of a
  single-pose output, the 17 leading triples of slot \<open>i\<close> of a multi-pose output.
\<close>

fun pose_triples :: "RawOutput \<Rightarrow> nat \<Rightarrow> (rat \<times> rat \<times> rat) list" where
  "pose_triples (SinglePose kpt0) i = kpt0"
| "pose_triples (MultiPose res0) i =
     map (\<lambda>j. (res0 ! i ! (3 * j), res0 ! i ! (3 * j + 1), res0 ! i ! (3 * j + 2))) [0..<17]"


text \<open>The raw outputs a frame can decode: one per cached box it starts with, and the full frame's.\<close>

definition frame_outputs :: "Frame \<Rightarrow> Config \<Rightarrow> State \<Rightarrow> RawOutput list" where
  "frame_outputs input cfg st =
     map (infer_crop input) (cachedBoxes (begin_frame cfg st)) @ [infer_full input]"

subsection \<open>Example inputs\<close>

definition example_config :: Config where
  "example_config = \<lparr>minConfidence = 1 / 5, maxDetected = 1, skipFrames = 5, skipFrame = True\<rparr>"

text \<open>Single-pose outputs: one with no score above 0.2; one with the scores 0.1, 0.3, 0.5
  and fourteen more below 0.2, whose third keypoint lies outside the crop.\<close>

definition no_keypoints :: RawOutput where
  "no_keypoints = SinglePose (replicate 17 (1 / 2, 1 / 2, 1 / 10))"

definition two_keypoints :: RawOutput where
  "two_keypoints =
     SinglePose ([(1 / 4, 1 / 4, 1 / 10), (1 / 2, 1 / 4, 3 / 10), (3 / 4, 6 / 5, 1 / 2)]
                 @ replicate 14 (1 / 2, 1 / 2, 1 / 10))"

text \<open>Multi-pose outputs: two poses of 17 keypoints with the aggregate scores 0.9 and
  0.8; three slots with the aggregate scores 0.9, 0.4 and 0.1 and no keypoint above 0.2.\<close>

definition two_poses :: RawOutput where
  "two_poses =
     MultiPose [slot_of (replicate 17 (1 / 2, 1 / 2, 9 / 10)) (9 / 10),
                slot_of (replicate 17 (1 / 4, 1 / 4, 4 / 5)) (4 / 5)]"

definition three_slots :: RawOutput where
  "three_slots =
     MultiPose [slot_of (replicate 17 (1 / 2, 1 / 2, 1 / 10)) (9 / 10),
                slot_of (replicate 17 (1 / 2, 1 / 2, 1 / 10)) (2 / 5),
                slot_of (replicate 17 (1 / 2, 1 / 2, 1 / 10)) (1 / 10)]"

section \<open>Properties\<close>

lemma floor_rat_numeral:
  "\<lfloor>(numeral a / numeral b :: rat)\<rfloor> = numeral a div numeral b"
  using floor_divide_of_int_eq [of "numeral a" "numeral b", where ?'a = rat] by simp

lemma floor_rat_neg_numeral:
  "\<lfloor>(- numeral a / numeral b :: rat)\<rfloor> = - numeral a div numeral b"
  using floor_divide_of_int_eq [of "- numeral a" "numeral b", where ?'a = rat] by simp

lemma floor_rat_minus_numeral:
  "\<lfloor>- (numeral a / numeral b :: rat)\<rfloor> = - numeral a div numeral b"
  using floor_rat_neg_numeral [of a b] by simp

lemma bit_length_numeral:
  "bit_length (numeral k) = Suc (bit_length (numeral k div 2))"
  by (subst bit_length.simps) simp

lemma bit_length_0: "bit_length 0 = 0"
  by (simp add: bit_length.simps)

lemma bit_length_1: "bit_length (Suc 0) = Suc 0"
  by (simp add: bit_length.simps)

lemmas fl_eval = fl_def exponent_def pow2_def double_add_def double_sub_def double_mul_def
  bit_length_numeral bit_length_0 bit_length_1 floor_rat_numeral floor_rat_neg_numeral
  floor_rat_minus_numeral Let_def

lemma fl_eval_examples:
  "fl (9 / 10) = 8106479329266893 / 9007199254740992"
  "fl (fl (fl (fl (9 / 10) - fl (1 / 5)) * (3 / 4)) + fl (1 / 5))
     = 3265109729843609 / 4503599627370496"
  "fl (- (1 / 3)) = - 6004799503160661 / 18014398509481984"
  "fl 1 = 1" "fl 0 = 0" "fl 50 = 50"
  by (simp_all add: fl_eval)

lemma fold_filter_map:
  "fold (\<lambda>x acc. if P x then acc @ [f x] else acc) xs acc = acc @ map f (filter P xs)"
  by (induction xs arbitrary: acc) auto

lemma score_make_keypoint: "score (make_keypoint cs img ib i y x s) = round2 s"
  by (cases ib) (simp add: make_keypoint_def Let_def)

lemma single_loop_set:
  "k \<in> set (single_loop cs cfg img ib i ks acc) \<Longrightarrow>
   k \<in> set acc \<or>
   (\<exists>j y x s. (y, x, s) \<in> set ks \<and> minConfidence cfg < s \<and> k = make_keypoint cs img ib j y x s)"
proof (induction ks arbitrary: i acc)
  case Nil
  then show ?case by simp
next
  case (Cons t ks)
  obtain y x s where t: "t = (y, x, s)" by (cases t)
  from Cons.prems Cons.IH [of "Suc i"] t show ?case
    by (fastforce split: if_splits)
qed

lemma slot_keypoints_eq:
  "slot_keypoints cs cfg img ib slot =
   map (\<lambda>i. make_keypoint cs img ib i (slot ! (3 * i + 0)) (slot ! (3 * i + 1)) (slot ! (3 * i + 2)))
     (filter (\<lambda>i. minConfidence cfg < slot ! (3 * i + 2)) [0..<17])"
  unfolding slot_keypoints_def by (simp only: fold_filter_map append_Nil)

lemma multi_slot_pair:
  "multi_slot cs cfg img ib (i, slot) (bodies, st) =
     (if 55 < length slot \<and> round2 (slot ! 55) > minConfidence cfg
      then (bodies @ [slot_body cs cfg img ib i slot],
            st\<lparr>keypoints := slot_keypoints cs cfg img ib slot\<rparr>)
      else (bodies, st))"
  by (simp add: multi_slot_def)

lemma multi_fold_fst:
  "fst (fold (multi_slot cs cfg img ib) xs (bodies, st)) =
   bodies @ map (\<lambda>(i, slot). slot_body cs cfg img ib i slot)
     (filter (\<lambda>(i, slot). 55 < length slot \<and> minConfidence cfg < round2 (slot ! 55)) xs)"
proof (induction xs arbitrary: bodies st)
  case Nil
  then show ?case by simp
next
  case (Cons a xs)
  obtain i slot where a: "a = (i, slot)" by (cases a)
  show ?case
    by (simp add: a multi_slot_pair Cons.IH)
qed

lemma multi_fold_snd:
  "snd (fold (multi_slot cs cfg img ib) xs (bodies, st)) = st' \<Longrightarrow>
   model_loaded st' = model_loaded st \<and> cachedBoxes st' = cachedBoxes st \<and>
   skipped st' = skipped st \<and> inferences st' = inferences st \<and>
   (keypoints st' = keypoints st \<or>
    (\<exists>(i, slot) \<in> set xs. 55 < length slot \<and> minConfidence cfg < round2 (slot ! 55) \<and>
        keypoints st' = slot_keypoints cs cfg img ib slot))"
proof (induction xs arbitrary: bodies st)
  case Nil
  then show ?case by simp
next
  case (Cons a xs)
  obtain i slot where a: "a = (i, slot)" by (cases a)
  show ?case
  proof (cases "55 < length slot \<and> minConfidence cfg < round2 (slot ! 55)")
    case True
    with Cons.prems a have
      "snd (fold (multi_slot cs cfg img ib) xs (bodies @ [slot_body cs cfg img ib i slot],
          st\<lparr>keypoints := slot_keypoints cs cfg img ib slot\<rparr>)) = st'"
      by (simp add: multi_slot_pair)
    from Cons.IH [OF this] a True show ?thesis by auto
  next
    case False
    with Cons.prems a have "snd (fold (multi_slot cs cfg img ib) xs (bodies, st)) = st'"
      by (auto simp add: multi_slot_pair)
    from Cons.IH [OF this] a show ?thesis by auto
  qed
qed


lemma parseSinglePose_eq:
  "parseSinglePose cs cfg img ib kpt0 st =
     ([\<lparr>body_id = 0, body_score = max_score (single_loop cs cfg img ib 0 kpt0 []),
        box = fst (createBox (single_loop cs cfg img ib 0 kpt0 [])),
        boxRaw = snd (createBox (single_loop cs cfg img ib 0 kpt0 [])),
        body_keypoints = Shared,
        annotations = make_annotations cs cfg (single_loop cs cfg img ib 0 kpt0 [])\<rparr>],
      st\<lparr>keypoints := single_loop cs cfg img ib 0 kpt0 []\<rparr>)"
  by (simp add: parseSinglePose_def Let_def split: prod.split)

lemma slot_body_eq:
  "slot_body cs cfg img ib i slot =
     \<lparr>body_id = i, body_score = round2 (slot ! 55),
      box = fst (createBox (slot_keypoints cs cfg img ib slot)),
      boxRaw = snd (createBox (slot_keypoints cs cfg img ib slot)),
      body_keypoints = Own (slot_keypoints cs cfg img ib slot),
      annotations = make_annotations cs cfg (slot_keypoints cs cfg img ib slot)\<rparr>"
  by (simp add: slot_body_def Let_def split: prod.split)

lemma multi_loop_fst:
  "fst (multi_loop cs cfg img ib res0 st) =
   map (\<lambda>(i, slot). slot_body cs cfg img ib i slot)
     (filter (\<lambda>(i, slot). 55 < length slot \<and> minConfidence cfg < round2 (slot ! 55))
        (zip [0..<length res0] res0))"
  by (simp add: multi_loop_def multi_fold_fst)

lemma parseMultiPose_fst:
  "fst (parseMultiPose cs cfg img ib res0 st) =
   take (maxDetected cfg) (sort_bodies (fst (multi_loop cs cfg img ib res0 st)))"
  by (simp add: parseMultiPose_def Let_def split: prod.split)

lemma parseMultiPose_snd:
  "snd (parseMultiPose cs cfg img ib res0 st) = snd (multi_loop cs cfg img ib res0 st)"
  by (simp add: parseMultiPose_def Let_def split: prod.split)

lemma set_sort_bodies: "set (sort_bodies bs) = set bs"
  by (simp add: sort_bodies_def)

lemma length_sort_bodies: "length (sort_bodies bs) = length bs"
  by (simp add: sort_bodies_def)

lemma sorted_sort_bodies: "sorted (map (\<lambda>b. - body_score b) (sort_bodies bs))"
  by (simp add: sort_bodies_def)

lemma stable_sort_bodies:
  "filter (\<lambda>b. body_score b = k) (sort_bodies bs) = filter (\<lambda>b. body_score b = k) bs"
  using sort_key_stable [of "\<lambda>b. - body_score b" "- k" bs] by (simp add: sort_bodies_def)


text \<open>What a multi-pose decode emits comes from a slot that passes.\<close>

lemma multi_emitted:
  assumes "b \<in> set (fst (parseMultiPose cs cfg img ib res0 st))"
  shows "\<exists>i slot. slot \<in> set res0 \<and> 55 < length slot \<and> minConfidence cfg < round2 (slot ! 55) \<and>
           b = slot_body cs cfg img ib i slot"
proof -
  from assms have "b \<in> set (fst (multi_loop cs cfg img ib res0 st))"
    by (auto simp: parseMultiPose_fst set_sort_bodies dest: in_set_takeD)
  then show ?thesis
    by (auto simp: multi_loop_fst dest: set_zip_rightD)
qed

lemma multi_loop_snd:
  "model_loaded (snd (multi_loop cs cfg img ib res0 st)) = model_loaded st \<and>
   cachedBoxes (snd (multi_loop cs cfg img ib res0 st)) = cachedBoxes st \<and>
   skipped (snd (multi_loop cs cfg img ib res0 st)) = skipped st \<and>
   inferences (snd (multi_loop cs cfg img ib res0 st)) = inferences st \<and>
   (keypoints (snd (multi_loop cs cfg img ib res0 st)) = keypoints st \<or>
    (\<exists>slot \<in> set res0. 55 < length slot \<and> minConfidence cfg < round2 (slot ! 55) \<and>
        keypoints (snd (multi_loop cs cfg img ib res0 st)) = slot_keypoints cs cfg img ib slot))"
  using multi_fold_snd [of cs cfg img ib "zip [0..<length res0] res0" "[]" st, OF refl]
  unfolding multi_loop_def by (auto dest: set_zip_rightD)

lemma slot_keypoints_good:
  assumes "slot \<in> set res0" "55 < length slot" "k \<in> set (slot_keypoints cs cfg img ib slot)"
  shows "\<exists>i y x s. (y, x, s) \<in> set (raw_keypoints (MultiPose res0)) \<and> minConfidence cfg < s \<and>
           k = make_keypoint cs img ib i y x s"
proof -
  from assms(3) obtain i where i: "i < 17" "minConfidence cfg < slot ! (3 * i + 2)"
    and k: "k = make_keypoint cs img ib i (slot ! (3 * i)) (slot ! (3 * i + 1)) (slot ! (3 * i + 2))"
    by (auto simp: slot_keypoints_eq)
  have "(slot ! (3 * i), slot ! (3 * i + 1), slot ! (3 * i + 2)) \<in> set (raw_keypoints (MultiPose res0))"
    using assms(1,2) i(1) by auto
  with i(2) k show ?thesis by blast
qed

lemma single_loop_good:
  assumes "k \<in> set (single_loop cs cfg img ib 0 kpt0 [])"
  shows "\<exists>i y x s. (y, x, s) \<in> set (raw_keypoints (SinglePose kpt0)) \<and> minConfidence cfg < s \<and>
           k = make_keypoint cs img ib i y x s"
  using single_loop_set [OF assms] by auto

lemma keypoints_of_update:
  "keypoints_of (st\<lparr>keypoints := ks\<rparr>) b = (case body_keypoints b of Shared \<Rightarrow> ks | Own own \<Rightarrow> own)"
  by (simp add: keypoints_of_def split: KeypointsRef.split)

lemma keypoints_of_cong:
  "keypoints st' = keypoints st \<Longrightarrow> keypoints_of st' b = keypoints_of st b"
  by (simp add: keypoints_of_def split: KeypointsRef.split)

text \<open>
  A decode keeps a property of the keypoints of the bodies seen so far, read through the
  shared array, when every keypoint it makes has the property.
\<close>

lemma parse_result_keypoints:
  assumes run: "parse_result cs cfg img ib res st = (nb, st')"
    and old: "\<forall>b \<in> set bodies. \<forall>k \<in> set (keypoints_of st b). G k"
    and new: "\<And>i y x s. (y, x, s) \<in> set (raw_keypoints res) \<Longrightarrow> minConfidence cfg < s \<Longrightarrow>
                G (make_keypoint cs img ib i y x s)"
  shows "\<forall>b \<in> set (bodies @ nb). \<forall>k \<in> set (keypoints_of st' b). G k"
proof (cases res)
  case (SinglePose kpt0)
  let ?kps = "single_loop cs cfg img ib 0 kpt0 []"
  have good: "\<forall>k \<in> set ?kps. G k"
    using single_loop_good [of _ cs cfg img ib kpt0] new SinglePose by blast
  from run SinglePose have st': "st' = st\<lparr>keypoints := ?kps\<rparr>"
    and nb: "\<forall>b \<in> set nb. body_keypoints b = Shared"
    by (auto simp: parse_result_def parseSinglePose_eq)
  show ?thesis
  proof (intro ballI)
    fix b k assume b: "b \<in> set (bodies @ nb)" and k: "k \<in> set (keypoints_of st' b)"
    show "G k"
    proof (cases "body_keypoints b")
      case Shared
      with k st' have "k \<in> set ?kps" by (simp add: keypoints_of_def)
      with good show ?thesis by blast
    next
      case (Own own)
      with nb b have "b \<in> set bodies" by auto
      moreover from Own k have "k \<in> set (keypoints_of st b)" by (simp add: keypoints_of_def)
      ultimately show ?thesis using old by blast
    qed
  qed
next
  case (MultiPose res0)
  from run MultiPose have nbeq: "nb = fst (parseMultiPose cs cfg img ib res0 st)"
    and st': "st' = snd (multi_loop cs cfg img ib res0 st)"
    by (auto simp: parse_result_def parseMultiPose_snd [symmetric])
  have slot_good: "\<And>slot k. slot \<in> set res0 \<Longrightarrow> 55 < length slot \<Longrightarrow>
      k \<in> set (slot_keypoints cs cfg img ib slot) \<Longrightarrow> G k"
    using slot_keypoints_good [of _ res0 _ cs cfg img ib] new MultiPose by blast
  have shared: "\<forall>k \<in> set (keypoints st'). k \<in> set (keypoints st) \<or> G k"
    using multi_loop_snd [of cs cfg img ib res0 st] slot_good unfolding st' by auto
  show ?thesis
  proof (intro ballI)
    fix b k assume b: "b \<in> set (bodies @ nb)" and k: "k \<in> set (keypoints_of st' b)"
    show "G k"
    proof (cases "b \<in> set nb")
      case True
      then obtain i slot where "slot \<in> set res0" "55 < length slot"
        "b = slot_body cs cfg img ib i slot"
        using multi_emitted [of b cs cfg img ib res0 st] nbeq by blast
      with k show ?thesis using slot_good by (auto simp: keypoints_of_def slot_body_eq)
    next
      case False
      with b have b': "b \<in> set bodies" by simp
      show ?thesis
      proof (cases "body_keypoints b")
        case Shared
        with k have "k \<in> set (keypoints st')" by (simp add: keypoints_of_def)
        with shared have "k \<in> set (keypoints st) \<or> G k" by blast
        then show ?thesis
        proof
          assume "k \<in> set (keypoints st)"
          with Shared have "k \<in> set (keypoints_of st b)" by (simp add: keypoints_of_def)
          with old b' show ?thesis by blast
        qed
      next
        case (Own own)
        with k have "k \<in> set (keypoints_of st b)" by (simp add: keypoints_of_def)
        with old b' show ?thesis by blast
      qed
    qed
  qed
qed

text \<open>The keypoint and the mapper with their bindings unfolded, for evaluation.\<close>

lemma make_keypoint_unfold:
  "make_keypoint cs img (b0, b1, b2, b3) i y x s =
     \<lparr>score = round2 s, part = kpt_at cs i,
      positionRaw = (double_add (double_mul (double_sub b3 b1) x) b1,
                     double_add (double_mul (double_sub b2 b0) y) b0),
      position = (math_round (double_mul (of_nat (fst img))
                                (double_add (double_mul (double_sub b3 b1) x) b1)),
                  math_round (double_mul (of_nat (snd img))
                                (double_add (double_mul (double_sub b2 b0) y) b0)))\<rparr>"
  by (simp add: make_keypoint_def Let_def)

lemma CoordinateMapper_unfold:
  "CoordinateMapper (w, h) (y0, x0, y1, x1) (kptY, kptX) =
     ((double_add (double_mul (double_sub x1 x0) kptX) x0,
       double_add (double_mul (double_sub y1 y0) kptY) y0),
      (math_round (double_mul (double_add (double_mul (double_sub x1 x0) kptX) x0) (of_nat w)),
       math_round (double_mul (double_add (double_mul (double_sub y1 y0) kptY) y0) (of_nat h))))"
  by (simp add: CoordinateMapper_def Let_def)

lemmas eval_defs = predict_def update_cache_def full_frame_def accumulated_def begin_frame_def
  parse_result_def parseSinglePose_def parseMultiPose_def multi_loop_def multi_slot_def
  slot_body_def slot_keypoints_def createBox_def make_keypoint_unfold make_annotations_def
  max_score_def round2_def math_round_def js_incr_def MAX_SAFE_INTEGER_def initial_state_def
  frame_of_def slot_of_def sample_coords_def kpt_at_def keypoints_of_def sort_bodies_def
  scale_def new_inferences_def CoordinateMapper_unfold frame_outputs_def predict_all_def
  floor_rat_numeral floor_rat_neg_numeral Let_def fl_eval pose_triples.simps

lemmas eval_inputs = example_config_def no_keypoints_def two_keypoints_def two_poses_def
  three_slots_def

lemma upt_17: "[0..<17] = [0, 1, 2, 3, 4, 5, 6, 7, 8, 9, 10, 11, 12, 13, 14, 15, 16]"
  by (simp add: upt_rec)

lemma replicate_numeral: "replicate (numeral n) x = x # replicate (pred_numeral n) x"
  by (simp add: numeral_eq_Suc)

lemma createBox_Nil: "createBox [] = ((PInf, PInf, NInf, NInf), (PInf, PInf, NInf, NInf))"
  by (simp add: createBox_def)

text \<open>
  C2, amended. A decode that retains no keypoint for a pose gives it the box and the
  boxRaw \<open>(Infinity, Infinity, -Infinity, -Infinity)\<close>: the minimum of no numbers is
  \<open>Infinity\<close>, the maximum is \<open>-Infinity\<close>, and their difference is \<open>-Infinity\<close>.
\<close>

theorem no_keypoints_box_infinite:
  assumes "parse_result cs cfg img ib res st = (bodies, st')"
    and "b \<in> set bodies"
    and "keypoints_of st' b = []"
  shows "box b = (PInf, PInf, NInf, NInf) \<and> boxRaw b = (PInf, PInf, NInf, NInf)"
proof (cases res)
  case (SinglePose kpt0)
  with assms show ?thesis
    by (auto simp: parse_result_def parseSinglePose_eq keypoints_of_def createBox_Nil)
next
  case (MultiPose res0)
  with assms(1,2) have "b \<in> set (fst (parseMultiPose cs cfg img ib res0 st))"
    by (auto simp: parse_result_def)
  then obtain i slot where "b = slot_body cs cfg img ib i slot"
    using multi_emitted by blast
  with assms(3) show ?thesis
    by (simp add: slot_body_eq keypoints_of_def createBox_Nil)
qed

text \<open>The instance: a single-pose output with no score above the minimum confidence.\<close>

theorem no_keypoints_box_infinite_witness:
  "(case parse_result sample_coords example_config (100, 100) (0, 0, 1, 1) no_keypoints
          initial_state of
      (bodies, st') \<Rightarrow>
        length bodies = 1 \<and> keypoints_of st' (hd bodies) = [] \<and>
        box (hd bodies) = (PInf, PInf, NInf, NInf) \<and>
        boxRaw (hd bodies) = (PInf, PInf, NInf, NInf))"
proof -
  obtain bodies st' where run:
    "parse_result sample_coords example_config (100, 100) (0, 0, 1, 1) no_keypoints
       initial_state = (bodies, st')"
    by (cases "parse_result sample_coords example_config (100, 100) (0, 0, 1, 1) no_keypoints
       initial_state")
  have len: "length bodies = 1" and none: "keypoints_of st' (hd bodies) = []"
    using run by (auto simp: eval_defs eval_inputs replicate_numeral)
  from len have "hd bodies \<in> set bodies" by (cases bodies) auto
  from no_keypoints_box_infinite [OF run this none] len none run show ?thesis
    by simp
qed

text \<open>
  C2 as stated fails for a single-pose output with no score above the minimum confidence:
  the pose has no keypoint, and neither its box nor its boxRaw is \<open>(0, 0, 0, 0)\<close>.
\<close>

theorem no_keypoints_box_not_zero:
  "(case parseSinglePose sample_coords example_config (100, 100) (0, 0, 1, 1)
          (replicate 17 (1 / 2, 1 / 2, 1 / 10)) initial_state of
      (bodies, st') \<Rightarrow>
        keypoints_of st' (hd bodies) = [] \<and>
        box (hd bodies) \<noteq> (Fin 0, Fin 0, Fin 0, Fin 0) \<and>
        boxRaw (hd bodies) \<noteq> (Fin 0, Fin 0, Fin 0, Fin 0))"
  by (simp add: eval_defs eval_inputs replicate_numeral)

lemma make_keypoint_mapped:
  "(positionRaw (make_keypoint cs (w, h) ref i y x s), position (make_keypoint cs (w, h) ref i y x s))
     = CoordinateMapper (w, h) ref (y, x)"
  by (cases ref) (simp add: make_keypoint_def CoordinateMapper_def Let_def double_mul_def mult.commute)

lemma single_loop_coordinates:
  "map (\<lambda>k. (positionRaw k, position k)) (single_loop cs cfg (w, h) ref i ks acc) =
   map (\<lambda>k. (positionRaw k, position k)) acc @
   map (\<lambda>(y, x, s). CoordinateMapper (w, h) ref (y, x))
     (filter (\<lambda>(y, x, s). minConfidence cfg < s) ks)"
proof (induction ks arbitrary: i acc)
  case Nil
  then show ?case by simp
next
  case (Cons t ks)
  obtain y x s where t: "t = (y, x, s)" by (cases t)
  show ?case
    by (simp add: t Cons.IH make_keypoint_mapped)
qed

lemma slot_keypoints_coordinates:
  "map (\<lambda>k. (positionRaw k, position k)) (slot_keypoints cs cfg (w, h) ref slot) =
   map (\<lambda>(y, x, s). CoordinateMapper (w, h) ref (y, x))
     (filter (\<lambda>(y, x, s). minConfidence cfg < s)
        (map (\<lambda>j. (slot ! (3 * j), slot ! (3 * j + 1), slot ! (3 * j + 2))) [0..<17]))"
  by (simp only: slot_keypoints_eq filter_map map_map comp_def make_keypoint_mapped
      prod.case add_0_right)

lemma multi_emitted_index:
  assumes "b \<in> set (fst (parseMultiPose cs cfg img ib res0 st))"
  shows "body_id b < length res0 \<and> b = slot_body cs cfg img ib (body_id b) (res0 ! body_id b)"
proof -
  from assms have "b \<in> set (fst (multi_loop cs cfg img ib res0 st))"
    by (auto simp: parseMultiPose_fst set_sort_bodies dest: in_set_takeD)
  then obtain i slot where "(i, slot) \<in> set (zip [0..<length res0] res0)"
    and b: "b = slot_body cs cfg img ib i slot"
    by (auto simp: multi_loop_fst)
  then have "i < length res0" "slot = res0 ! i"
    by (auto simp: set_zip)
  with b show ?thesis by (simp add: slot_body_eq)
qed

lemma fl_1: "fl 1 = 1"
  by (simp add: fl_eval)

lemma CoordinateMapper_unit:
  assumes "fl x = x" "fl y = y"
  shows "CoordinateMapper (w, h) (0, 0, 1, 1) (y, x) =
     ((x, y), (math_round (double_mul x (of_nat w)), math_round (double_mul y (of_nat h))))"
  using assms
  by (simp add: CoordinateMapper_def double_sub_def double_mul_def double_add_def fl_1)

lemma parse_result_coordinates:
  assumes run: "parse_result cs cfg (w, h) ref res st = (bodies, st')"
    and b: "b \<in> set bodies"
  shows "map (\<lambda>k. (positionRaw k, position k)) (keypoints_of st' b) =
         map (\<lambda>(y, x, s). CoordinateMapper (w, h) ref (y, x))
           (filter (\<lambda>(y, x, s). minConfidence cfg < s) (pose_triples res (body_id b)))"
proof (cases res)
  case (SinglePose kpt0)
  with run b have "keypoints_of st' b = single_loop cs cfg (w, h) ref 0 kpt0 []"
    by (auto simp: parse_result_def parseSinglePose_eq keypoints_of_def)
  with SinglePose show ?thesis
    by (simp add: single_loop_coordinates)
next
  case (MultiPose res0)
  with run b have "b \<in> set (fst (parseMultiPose cs cfg (w, h) ref res0 st))"
    by (auto simp: parse_result_def)
  from multi_emitted_index [OF this]
  have "b = slot_body cs cfg (w, h) ref (body_id b) (res0 ! body_id b)" by simp
  then have "keypoints_of st' b = slot_keypoints cs cfg (w, h) ref (res0 ! body_id b)"
    by (metis BodyResult.select_convs(5) KeypointsRef.simps(5) keypoints_of_def slot_body_eq)
  with MultiPose show ?thesis
    by (simp add: slot_keypoints_coordinates)
qed

text \<open>
  C9. The keypoints of every decoded pose, single-pose or multi-pose, are, in order, the
  images under the specification's CoordinateMapper of the raw triples \<open>(y, x, s)\<close> of
  the pose whose score exceeds the minimum confidence: positionRaw is
  \<open>((x1 - x0) * x + x0, (y1 - y0) * y + y0)\<close> and position is
  \<open>round (positionRaw * imageDimensions)\<close>, in the arithmetic of doubles, nothing
  clamped. With the reference box \<open>(0, 0, 1, 1)\<close> and raw coordinates that are doubles,
  positionRaw is \<open>(x, y)\<close> itself and position is \<open>(round (x * width), round (y * height))\<close>.
\<close>

theorem keypoint_coordinates:
  assumes "parse_result cs cfg (w, h) ref res st = (bodies, st')"
    and "b \<in> set bodies"
  shows "map (\<lambda>k. (positionRaw k, position k)) (keypoints_of st' b) =
           map (\<lambda>(y, x, s). CoordinateMapper (w, h) ref (y, x))
             (filter (\<lambda>(y, x, s). minConfidence cfg < s) (pose_triples res (body_id b))) \<and>
         (ref = (0, 0, 1, 1) \<and>
          (\<forall>(y, x, s) \<in> set (pose_triples res (body_id b)). fl x = x \<and> fl y = y) \<longrightarrow>
            map (\<lambda>k. (positionRaw k, position k)) (keypoints_of st' b) =
              map (\<lambda>(y, x, s). ((x, y), (math_round (double_mul x (of_nat w)),
                                         math_round (double_mul y (of_nat h)))))
                (filter (\<lambda>(y, x, s). minConfidence cfg < s) (pose_triples res (body_id b))))"
proof (intro conjI impI)
  show general: "map (\<lambda>k. (positionRaw k, position k)) (keypoints_of st' b) =
           map (\<lambda>(y, x, s). CoordinateMapper (w, h) ref (y, x))
             (filter (\<lambda>(y, x, s). minConfidence cfg < s) (pose_triples res (body_id b)))"
    by (rule parse_result_coordinates [OF assms])
  assume unit: "ref = (0, 0, 1, 1) \<and>
          (\<forall>(y, x, s) \<in> set (pose_triples res (body_id b)). fl x = x \<and> fl y = y)"
  have "map (\<lambda>(y, x, s). CoordinateMapper (w, h) ref (y, x))
             (filter (\<lambda>(y, x, s). minConfidence cfg < s) (pose_triples res (body_id b))) =
        map (\<lambda>(y, x, s). ((x, y), (math_round (double_mul x (of_nat w)),
                                         math_round (double_mul y (of_nat h)))))
                (filter (\<lambda>(y, x, s). minConfidence cfg < s) (pose_triples res (body_id b)))"
    using unit by (intro map_cong refl) (auto simp: CoordinateMapper_unit)
  with general show "map (\<lambda>k. (positionRaw k, position k)) (keypoints_of st' b) =
        map (\<lambda>(y, x, s). ((x, y), (math_round (double_mul x (of_nat w)),
                                         math_round (double_mul y (of_nat h)))))
                (filter (\<lambda>(y, x, s). minConfidence cfg < s) (pose_triples res (body_id b)))"
    by simp
qed


text \<open>
  The instances. A multi-pose slot decoded against the cached region
  \<open>(0.1, 0.2, 0.7, 0.9)\<close> (the doubles) on an image of 100 by 100 pixels: the keypoint
  \<open>(y, x) = (0.5, 0.75)\<close> has positionRaw \<open>(0.7249999999999999, 0.4)\<close> and position
  \<open>(72, 40)\<close>. A single-pose output decoded against the whole frame: the retained
  keypoints \<open>(y, x) = (1/2, 1/4)\<close> and \<open>(3/4, 5/4)\<close> keep their coordinates and have
  the positions \<open>(25, 50)\<close> and \<open>(125, 75)\<close>, the second outside the frame.
\<close>

theorem keypoint_coordinates_witness:
  "(case parse_result sample_coords example_config (100, 100)
          (fl (1 / 10), fl (1 / 5), fl (7 / 10), fl (9 / 10))
          (MultiPose [slot_of ((1 / 2, 3 / 4, 9 / 10) # replicate 16 (1 / 2, 1 / 2, 1 / 10))
                        (9 / 10)])
          initial_state of
      (bodies, st') \<Rightarrow>
        length bodies = 1 \<and> body_id (hd bodies) = 0 \<and>
        map (\<lambda>k. (positionRaw k, position k)) (keypoints_of st' (hd bodies)) =
          [((3265109729843609 / 4503599627370496, 3602879701896397 / 9007199254740992),
            (72, 40))]) \<and>
   (case parse_result sample_coords example_config (100, 100) (0, 0, 1, 1)
          (SinglePose ([(1 / 4, 1 / 4, 1 / 10), (1 / 2, 1 / 4, 3 / 10), (3 / 4, 5 / 4, 1 / 2)]
                       @ replicate 14 (1 / 2, 1 / 2, 1 / 10)))
          initial_state of
      (bodies, st') \<Rightarrow>
        length bodies = 1 \<and>
        list_all (\<lambda>(y, x, s). fl x = x \<and> fl y = y)
          ([(1 / 4, 1 / 4, 1 / 10), (1 / 2, 1 / 4, 3 / 10), (3 / 4, 5 / 4, 1 / 2)]
             @ replicate 14 (1 / 2, 1 / 2, 1 / 10) :: (rat \<times> rat \<times> rat) list) \<and>
        map (\<lambda>k. (positionRaw k, position k)) (keypoints_of st' (hd bodies)) =
          [((1 / 4, 1 / 2), (25, 50)), ((5 / 4, 3 / 4), (125, 75))])"
proof -
  let ?box = "(fl (1 / 10), fl (1 / 5), fl (7 / 10), fl (9 / 10))"
  let ?multi = "MultiPose [slot_of ((1 / 2, 3 / 4, 9 / 10) # replicate 16 (1 / 2, 1 / 2, 1 / 10))
                        (9 / 10)]"
  let ?kpt0 = "[(1 / 4, 1 / 4, 1 / 10), (1 / 2, 1 / 4, 3 / 10), (3 / 4, 5 / 4, 1 / 2)]
                 @ replicate 14 (1 / 2, 1 / 2, 1 / 10) :: (rat \<times> rat \<times> rat) list"
  let ?r1 = "parse_result sample_coords example_config (100, 100) ?box ?multi initial_state"
  let ?r2 = "parse_result sample_coords example_config (100, 100) (0, 0, 1, 1)
               (SinglePose ?kpt0) initial_state"
  have run1: "?r1 = (fst ?r1, snd ?r1)" and run2: "?r2 = (fst ?r2, snd ?r2)" by simp_all
  have len1: "length (fst ?r1) = 1" and id1: "body_id (hd (fst ?r1)) = 0"
    by (simp_all add: eval_defs eval_inputs replicate_numeral upt_17)
  have len2: "length (fst ?r2) = 1" and id2: "body_id (hd (fst ?r2)) = 0"
    by (simp_all add: eval_defs eval_inputs replicate_numeral)
  from len1 have mem1: "hd (fst ?r1) \<in> set (fst ?r1)" by (cases "fst ?r1") auto
  from len2 have mem2: "hd (fst ?r2) \<in> set (fst ?r2)" by (cases "fst ?r2") auto
  have triples1: "filter (\<lambda>(y, x, s). minConfidence example_config < s) (pose_triples ?multi 0)
      = [(1 / 2, 3 / 4, 9 / 10)]"
    by (simp add: example_config_def slot_of_def replicate_numeral upt_17)
  have mapped1: "CoordinateMapper (100, 100) ?box (1 / 2, 3 / 4) =
      ((3265109729843609 / 4503599627370496, 3602879701896397 / 9007199254740992), (72, 40))"
    by (simp add: CoordinateMapper_unfold math_round_def fl_eval)
  have doubles: "list_all (\<lambda>(y, x, s). fl x = x \<and> fl y = y) ?kpt0"
    by (simp add: fl_eval replicate_numeral)
  then have doubles': "\<forall>(y, x, s) \<in> set (pose_triples (SinglePose ?kpt0) (body_id (hd (fst ?r2)))).
      fl x = x \<and> fl y = y"
    by (simp add: list_all_iff)
  have triples2: "filter (\<lambda>(y, x, s). minConfidence example_config < s)
      (pose_triples (SinglePose ?kpt0) (body_id (hd (fst ?r2))))
      = [(1 / 2, 1 / 4, 3 / 10), (3 / 4, 5 / 4, 1 / 2)]"
    by (simp add: example_config_def replicate_numeral)
  have products: "math_round (double_mul (1 / 4) (of_nat 100)) = 25"
    "math_round (double_mul (1 / 2) (of_nat 100)) = 50"
    "math_round (double_mul (5 / 4) (of_nat 100)) = 125"
    "math_round (double_mul (3 / 4) (of_nat 100)) = 75"
    by (simp_all add: math_round_def fl_eval)
  from keypoint_coordinates [OF run1 mem1]
  have "map (\<lambda>k. (positionRaw k, position k)) (keypoints_of (snd ?r1) (hd (fst ?r1))) =
      map (\<lambda>(y, x, s). CoordinateMapper (100, 100) ?box (y, x))
        (filter (\<lambda>(y, x, s). minConfidence example_config < s)
           (pose_triples ?multi (body_id (hd (fst ?r1)))))"
    by (rule conjunct1)
  then have c1: "map (\<lambda>k. (positionRaw k, position k)) (keypoints_of (snd ?r1) (hd (fst ?r1))) =
      [((3265109729843609 / 4503599627370496, 3602879701896397 / 9007199254740992), (72, 40))]"
    by (simp only: id1 triples1 list.map prod.case mapped1)
  from keypoint_coordinates [OF run2 mem2] doubles'
  have "map (\<lambda>k. (positionRaw k, position k)) (keypoints_of (snd ?r2) (hd (fst ?r2))) =
      map (\<lambda>(y, x, s). ((x, y), (math_round (double_mul x (of_nat 100)),
                                 math_round (double_mul y (of_nat 100)))))
        (filter (\<lambda>(y, x, s). minConfidence example_config < s)
           (pose_triples (SinglePose ?kpt0) (body_id (hd (fst ?r2)))))"
    by blast
  then have c2: "map (\<lambda>k. (positionRaw k, position k)) (keypoints_of (snd ?r2) (hd (fst ?r2))) =
      [((1 / 4, 1 / 2), (25, 50)), ((5 / 4, 3 / 4), (125, 75))]"
    by (simp only: triples2 list.map prod.case products)
  from len1 id1 c1 len2 doubles c2 show ?thesis
    by (simp only: case_prod_unfold simp_thms)
qed

lemma parse_result_state:
  assumes "parse_result cs cfg img ib res st = (nb, st')"
  shows "model_loaded st' = model_loaded st \<and> cachedBoxes st' = cachedBoxes st \<and>
         skipped st' = skipped st \<and> inferences st' = inferences st"
proof (cases res)
  case (SinglePose kpt0)
  with assms show ?thesis by (auto simp: parse_result_def parseSinglePose_eq)
next
  case (MultiPose res0)
  with assms have "st' = snd (multi_loop cs cfg img ib res0 st)"
    by (auto simp: parse_result_def parseMultiPose_snd [symmetric])
  then show ?thesis using multi_loop_snd [of cs cfg img ib res0 st] by simp
qed

lemma cached_loop_state:
  assumes "cached_loop cs input cfg boxes (bodies, st) = (bodies', st')"
  shows "model_loaded st' = model_loaded st \<and> cachedBoxes st' = cachedBoxes st \<and>
         skipped st' = skipped st \<and>
         inferences st' = inferences st @ map CropInference boxes"
  using assms
proof (induction boxes arbitrary: bodies st)
  case Nil
  then show ?case by simp
next
  case (Cons bx boxes)
  obtain nb st1 where p: "parse_result cs cfg (width input, height input) bx (infer_crop input bx)
      (st\<lparr>inferences := inferences st @ [CropInference bx]\<rparr>) = (nb, st1)"
    by (cases "parse_result cs cfg (width input, height input) bx (infer_crop input bx)
      (st\<lparr>inferences := inferences st @ [CropInference bx]\<rparr>)")
  with Cons.prems have "cached_loop cs input cfg boxes (bodies @ nb, st1) = (bodies', st')"
    by simp
  from Cons.IH [OF this] parse_result_state [OF p] show ?case by simp
qed

lemma cached_loop_keypoints:
  assumes "cached_loop cs input cfg boxes (bodies, st) = (bodies', st')"
    and "\<forall>b \<in> set bodies. \<forall>k \<in> set (keypoints_of st b). G k"
    and "\<And>bx i y x s. bx \<in> set boxes \<Longrightarrow> (y, x, s) \<in> set (raw_keypoints (infer_crop input bx)) \<Longrightarrow>
           minConfidence cfg < s \<Longrightarrow> G (make_keypoint cs (width input, height input) bx i y x s)"
  shows "\<forall>b \<in> set bodies'. \<forall>k \<in> set (keypoints_of st' b). G k"
  using assms
proof (induction boxes arbitrary: bodies st)
  case Nil
  then show ?case by simp
next
  case (Cons bx boxes)
  let ?st0 = "st\<lparr>inferences := inferences st @ [CropInference bx]\<rparr>"
  obtain nb st1 where p: "parse_result cs cfg (width input, height input) bx (infer_crop input bx)
      ?st0 = (nb, st1)"
    by (cases "parse_result cs cfg (width input, height input) bx (infer_crop input bx) ?st0")
  with Cons.prems(1) have loop: "cached_loop cs input cfg boxes (bodies @ nb, st1) = (bodies', st')"
    by simp
  have old: "\<forall>b \<in> set bodies. \<forall>k \<in> set (keypoints_of ?st0 b). G k"
    using Cons.prems(2) by (simp add: keypoints_of_cong [of ?st0 st])
  have step: "\<forall>b \<in> set (bodies @ nb). \<forall>k \<in> set (keypoints_of st1 b). G k"
    by (rule parse_result_keypoints [OF p old]) (rule Cons.prems(3), simp_all)
  show ?case
    by (rule Cons.IH [OF loop step]) (rule Cons.prems(3), simp_all)
qed

lemma begin_frame_fields:
  "model_loaded (begin_frame cfg st) = model_loaded st \<and>
   skipped (begin_frame cfg st) = js_incr (skipped st) \<and>
   keypoints (begin_frame cfg st) = keypoints st \<and>
   inferences (begin_frame cfg st) = inferences st \<and>
   cachedBoxes (begin_frame cfg st) = (if skipFrame cfg then cachedBoxes st else [])"
  by (simp add: begin_frame_def Let_def)

lemma accumulated_state:
  assumes "accumulated cs input cfg st = (bodies, st')"
  shows "model_loaded st' = model_loaded st \<and> skipped st' = js_incr (skipped st) \<and>
         cachedBoxes st' = cachedBoxes (begin_frame cfg st) \<and>
         inferences st' = inferences st @ map CropInference (cachedBoxes (begin_frame cfg st))"
  using cached_loop_state [OF assms [unfolded accumulated_def]] begin_frame_fields [of cfg st]
  by simp

lemma accumulated_keypoints:
  assumes "accumulated cs input cfg st = (bodies, st')"
    and "\<And>bx i y x s. bx \<in> set (cachedBoxes (begin_frame cfg st)) \<Longrightarrow>
           (y, x, s) \<in> set (raw_keypoints (infer_crop input bx)) \<Longrightarrow>
           minConfidence cfg < s \<Longrightarrow> G (make_keypoint cs (width input, height input) bx i y x s)"
  shows "\<forall>b \<in> set bodies. \<forall>k \<in> set (keypoints_of st' b). G k"
  by (rule cached_loop_keypoints [OF assms(1) [unfolded accumulated_def]]) (simp, rule assms(2))

text \<open>The full-frame branch, by its guard.\<close>

lemma full_frame_runs:
  assumes "length bodies \<noteq> maxDetected cfg" "skipFrames cfg < skipped st"
  shows "full_frame cs input cfg (bodies, st) =
     (fst (parse_result cs cfg (width input, height input) (0, 0, 1, 1) (infer_full input)
             (st\<lparr>inferences := inferences st @ [FullInference]\<rparr>)),
      (snd (parse_result cs cfg (width input, height input) (0, 0, 1, 1) (infer_full input)
             (st\<lparr>inferences := inferences st @ [FullInference]\<rparr>)))
        \<lparr>cachedBoxes := [], skipped := 0\<rparr>)"
  using assms by (simp add: full_frame_def split: prod.split)

lemma full_frame_skips:
  assumes "\<not> (length bodies \<noteq> maxDetected cfg \<and> skipFrames cfg < skipped st)"
  shows "full_frame cs input cfg (bodies, st) = (bodies, st)"
  using assms by (auto simp add: full_frame_def)

lemma update_cache_fields:
  assumes "update_cache sc input cfg (bodies, st) = (bodies', st')"
  shows "bodies' = bodies \<and> model_loaded st' = model_loaded st \<and> skipped st' = skipped st \<and>
         keypoints st' = keypoints st \<and> inferences st' = inferences st \<and>
         cachedBoxes st' =
           (if skipFrame cfg
            then map (\<lambda>b. sc (map position (keypoints_of st b)) (3 / 2) (width input, height input))
                   (filter (\<lambda>b. 10 < length (keypoints_of st b)) bodies)
            else cachedBoxes st)"
  using assms by (auto simp: update_cache_def fold_filter_map)

text \<open>A frame with a loaded model, by whether the full-frame branch is taken.\<close>

lemma predict_full:
  assumes loaded: "model_loaded st"
    and acc: "accumulated cs input cfg st = (cb, st3)"
    and due: "length cb \<noteq> maxDetected cfg" "skipFrames cfg < js_incr (skipped st)"
    and full: "parse_result cs cfg (width input, height input) (0, 0, 1, 1) (infer_full input)
                 (st3\<lparr>inferences := inferences st3 @ [FullInference]\<rparr>) = (fb, st4)"
    and run: "predict cs sc input cfg st = (bodies, st')"
  shows "bodies = fb \<and> model_loaded st' \<and> skipped st' = 0 \<and> keypoints st' = keypoints st4 \<and>
         inferences st' = inferences st @ map CropInference (cachedBoxes (begin_frame cfg st))
                            @ [FullInference] \<and>
         cachedBoxes st' =
           (if skipFrame cfg
            then map (\<lambda>b. sc (map position (keypoints_of st' b)) (3 / 2) (width input, height input))
                   (filter (\<lambda>b. 10 < length (keypoints_of st' b)) bodies)
            else [])"
proof -
  note a = accumulated_state [OF acc]
  from due a have "skipFrames cfg < skipped st3" by simp
  with due(1) have ff: "full_frame cs input cfg (cb, st3) = (fb, st4\<lparr>cachedBoxes := [], skipped := 0\<rparr>)"
    by (simp add: full_frame_runs full)
  from run loaded acc ff have
    u: "update_cache sc input cfg (fb, st4\<lparr>cachedBoxes := [], skipped := 0\<rparr>) = (bodies, st')"
    by (simp add: predict_def)
  note f = update_cache_fields [OF u]
  note p = parse_result_state [OF full]
  from f have kp: "keypoints st' = keypoints (st4\<lparr>cachedBoxes := [], skipped := 0\<rparr>)" by simp
  have ko: "\<And>b. keypoints_of (st4\<lparr>cachedBoxes := [], skipped := 0\<rparr>) b = keypoints_of st' b"
    by (rule keypoints_of_cong) (simp add: kp)
  from f p a loaded show ?thesis by (simp add: ko)
qed

lemma predict_no_full:
  assumes loaded: "model_loaded st"
    and acc: "accumulated cs input cfg st = (cb, st3)"
    and not_due: "\<not> (length cb \<noteq> maxDetected cfg \<and> skipFrames cfg < js_incr (skipped st))"
    and run: "predict cs sc input cfg st = (bodies, st')"
  shows "bodies = cb \<and> model_loaded st' \<and> skipped st' = js_incr (skipped st) \<and>
         keypoints st' = keypoints st3 \<and>
         inferences st' = inferences st @ map CropInference (cachedBoxes (begin_frame cfg st)) \<and>
         cachedBoxes st' =
           (if skipFrame cfg
            then map (\<lambda>b. sc (map position (keypoints_of st' b)) (3 / 2) (width input, height input))
                   (filter (\<lambda>b. 10 < length (keypoints_of st' b)) bodies)
            else [])"
proof -
  note a = accumulated_state [OF acc]
  from not_due a have "\<not> (length cb \<noteq> maxDetected cfg \<and> skipFrames cfg < skipped st3)" by simp
  then have ff: "full_frame cs input cfg (cb, st3) = (cb, st3)"
    by (rule full_frame_skips)
  from run loaded acc ff have u: "update_cache sc input cfg (cb, st3) = (bodies, st')"
    by (simp add: predict_def)
  note f = update_cache_fields [OF u]
  from f have kp: "keypoints st' = keypoints st3" by simp
  have ko: "\<And>b. keypoints_of st3 b = keypoints_of st' b"
    by (rule keypoints_of_cong) (simp add: kp)
  from f a loaded show ?thesis by (simp add: ko begin_frame_fields)
qed

lemma new_inferences_append: "inferences st' = inferences st @ xs \<Longrightarrow> new_inferences st st' = xs"
  by (simp add: new_inferences_def)

lemma predict_unloaded: "\<not> model_loaded st \<Longrightarrow> predict cs sc input cfg st = ([], st)"
  by (simp add: predict_def)

lemma predict_keypoints:
  assumes run: "predict cs sc input cfg st = (bodies, st')"
    and crop: "\<And>bx i y x s. bx \<in> set (cachedBoxes (begin_frame cfg st)) \<Longrightarrow>
           (y, x, s) \<in> set (raw_keypoints (infer_crop input bx)) \<Longrightarrow>
           minConfidence cfg < s \<Longrightarrow> G (make_keypoint cs (width input, height input) bx i y x s)"
    and whole: "\<And>i y x s. (y, x, s) \<in> set (raw_keypoints (infer_full input)) \<Longrightarrow>
           minConfidence cfg < s \<Longrightarrow>
           G (make_keypoint cs (width input, height input) (0, 0, 1, 1) i y x s)"
  shows "\<forall>b \<in> set bodies. \<forall>k \<in> set (keypoints_of st' b). G k"
proof (cases "model_loaded st")
  case False
  with run show ?thesis by (simp add: predict_unloaded)
next
  case True
  obtain cb st3 where acc: "accumulated cs input cfg st = (cb, st3)"
    by (cases "accumulated cs input cfg st")
  have inv3: "\<forall>b \<in> set cb. \<forall>k \<in> set (keypoints_of st3 b). G k"
    by (rule accumulated_keypoints [OF acc]) (rule crop)
  show ?thesis
  proof (cases "length cb \<noteq> maxDetected cfg \<and> skipFrames cfg < js_incr (skipped st)")
    case False
    from predict_no_full [OF True acc False run] have "bodies = cb" "keypoints st' = keypoints st3"
      by simp_all
    with inv3 show ?thesis by (simp add: keypoints_of_cong [of st' st3])
  next
    case due: True
    let ?st0 = "st3\<lparr>inferences := inferences st3 @ [FullInference]\<rparr>"
    obtain fb st4 where full: "parse_result cs cfg (width input, height input) (0, 0, 1, 1)
        (infer_full input) ?st0 = (fb, st4)"
      by (cases "parse_result cs cfg (width input, height input) (0, 0, 1, 1)
        (infer_full input) ?st0")
    from due predict_full [OF True acc _ _ full run]
    have eq: "bodies = fb" "keypoints st' = keypoints st4" by simp_all
    have "\<forall>b \<in> set ([] @ fb). \<forall>k \<in> set (keypoints_of st4 b). G k"
      by (rule parse_result_keypoints [OF full]) (simp, rule whole)
    with eq show ?thesis by (simp add: keypoints_of_cong [of st' st4])
  qed
qed

lemma predict_cache:
  assumes loaded: "model_loaded st"
    and run: "predict cs sc input cfg st = (bodies, st')"
  shows "cachedBoxes st' =
           (if skipFrame cfg
            then map (\<lambda>b. sc (map position (keypoints_of st' b)) (3 / 2) (width input, height input))
                   (filter (\<lambda>b. 10 < length (keypoints_of st' b)) bodies)
            else [])"
proof -
  obtain cb st3 where acc: "accumulated cs input cfg st = (cb, st3)"
    by (cases "accumulated cs input cfg st")
  show ?thesis
  proof (cases "length cb \<noteq> maxDetected cfg \<and> skipFrames cfg < js_incr (skipped st)")
    case True
    let ?st0 = "st3\<lparr>inferences := inferences st3 @ [FullInference]\<rparr>"
    obtain fb st4 where full: "parse_result cs cfg (width input, height input) (0, 0, 1, 1)
        (infer_full input) ?st0 = (fb, st4)"
      by (cases "parse_result cs cfg (width input, height input) (0, 0, 1, 1)
        (infer_full input) ?st0")
    from True predict_full [OF loaded acc _ _ full run] show ?thesis by simp
  next
    case False
    from predict_no_full [OF loaded acc False run] show ?thesis by simp
  qed
qed

lemma round2_lower: "s - 1 / 200 < round2 s"
proof -
  have "100 * s + 1 / 2 < of_int \<lfloor>100 * s + 1 / 2\<rfloor> + 1"
    by linarith
  then have "100 * s - 1 / 2 < of_int (math_round (100 * s))"
    by (simp add: math_round_def)
  then show ?thesis
    by (simp add: round2_def field_simps)
qed

text \<open>
  C3, amended. Every keypoint of every pose that predict returns was retained because its
  raw score, in a raw output of the frame, strictly exceeds the minimum confidence; its
  stored score is that raw score rounded to two decimals, so the stored score exceeds the
  minimum confidence less 0.005 (and can equal the minimum confidence).
\<close>

theorem stored_score_from_raw_above_threshold:
  assumes "predict cs sc input cfg st = (bodies, st')"
    and "b \<in> set bodies"
    and "kp \<in> set (keypoints_of st' b)"
  shows "\<exists>res \<in> set (frame_outputs input cfg st). \<exists>(y, x, s) \<in> set (raw_keypoints res).
           minConfidence cfg < s \<and> score kp = round2 s \<and> minConfidence cfg - 1 / 200 < score kp"
proof -
  let ?G = "\<lambda>kp. \<exists>res \<in> set (frame_outputs input cfg st). \<exists>(y, x, s) \<in> set (raw_keypoints res).
              minConfidence cfg < s \<and> score kp = round2 s \<and> minConfidence cfg - 1 / 200 < score kp"
  have good: "?G (make_keypoint cs img ib i y x s)"
    if "res \<in> set (frame_outputs input cfg st)" "(y, x, s) \<in> set (raw_keypoints res)"
      "minConfidence cfg < s" for res img ib i y x s
  proof -
    have "minConfidence cfg - 1 / 200 < round2 s"
      using round2_lower [of s] that(3) by linarith
    with that show ?thesis
      by (auto simp: score_make_keypoint intro!: bexI [of _ res] bexI [of _ "(y, x, s)"])
  qed
  have "\<forall>b \<in> set bodies. \<forall>k \<in> set (keypoints_of st' b). ?G k"
  proof (rule predict_keypoints [OF assms(1)])
    fix bx i y x s
    assume "bx \<in> set (cachedBoxes (begin_frame cfg st))"
      "(y, x, s) \<in> set (raw_keypoints (infer_crop input bx))" "minConfidence cfg < s"
    then show "?G (make_keypoint cs (width input, height input) bx i y x s)"
      by (intro good [of "infer_crop input bx"]) (simp_all add: frame_outputs_def)
  next
    fix i y x s
    assume "(y, x, s) \<in> set (raw_keypoints (infer_full input))" "minConfidence cfg < s"
    then show "?G (make_keypoint cs (width input, height input) (0, 0, 1, 1) i y x s)"
      by (intro good [of "infer_full input"]) (simp_all add: frame_outputs_def)
  qed
  with assms(2,3) show ?thesis by blast
qed

text \<open>
  The instance: the first frame, a single-pose output with the scores 0.1, 0.3, 0.5 and
  fourteen more below the minimum confidence 0.2.
\<close>

theorem stored_score_from_raw_above_threshold_witness:
  "(case predict sample_coords scale (frame_of 100 100 two_keypoints) example_config
          initial_state of
      (bodies, st') \<Rightarrow>
        length bodies = 1 \<and> map score (keypoints_of st' (hd bodies)) = [3 / 10, 1 / 2] \<and>
        (\<exists>res \<in> set (frame_outputs (frame_of 100 100 two_keypoints) example_config initial_state).
           \<exists>(y, x, s) \<in> set (raw_keypoints res).
             minConfidence example_config < s \<and>
             score (hd (keypoints_of st' (hd bodies))) = round2 s \<and>
             minConfidence example_config - 1 / 200 < score (hd (keypoints_of st' (hd bodies)))))"
proof -
  obtain bodies st' where run:
    "predict sample_coords scale (frame_of 100 100 two_keypoints) example_config initial_state
       = (bodies, st')"
    by (cases "predict sample_coords scale (frame_of 100 100 two_keypoints) example_config
       initial_state")
  have len: "length bodies = 1"
    and sc: "map score (keypoints_of st' (hd bodies)) = [3 / 10, 1 / 2]"
    using run by (auto simp: eval_defs eval_inputs replicate_numeral)
  from len have mem: "hd bodies \<in> set bodies" by (cases bodies) auto
  from sc have "keypoints_of st' (hd bodies) \<noteq> []" by auto
  then have "hd (keypoints_of st' (hd bodies)) \<in> set (keypoints_of st' (hd bodies))"
    by simp
  from stored_score_from_raw_above_threshold [OF run mem this] len sc run show ?thesis
    by simp
qed

text \<open>
  C3 as stated fails on the first frame for a raw score 0.204 and the minimum
  confidence 0.2: the keypoint is retained and its stored score is 0.2.
\<close>

theorem stored_score_not_above_threshold:
  "(case predict sample_coords scale
          (frame_of 100 100
             (SinglePose ((1 / 2, 1 / 2, 51 / 250) # replicate 16 (1 / 2, 1 / 2, 1 / 10))))
          \<lparr>minConfidence = 1 / 5, maxDetected = 1, skipFrames = 5, skipFrame = True\<rparr>
          initial_state of
      (bodies, st') \<Rightarrow>
        map (\<lambda>b. map score (keypoints_of st' b)) bodies = [[1 / 5]] \<and>
        \<not> (\<forall>b \<in> set bodies. \<forall>k \<in> set (keypoints_of st' b). 1 / 5 < score k))"
  by (simp add: eval_defs replicate_numeral)

lemma descending_sort_bodies:
  "sorted_wrt (\<lambda>a b. body_score b \<le> body_score a) (sort_bodies bs)"
  using sorted_sort_bodies [of bs] by (simp add: sorted_map)



lemma multi_loop_ids_scores:
  "map (\<lambda>b. (body_id b, body_score b)) (fst (multi_loop cs cfg img ib res0 st)) =
   map (\<lambda>(i, slot). (i, round2 (slot ! 55)))
     (filter (\<lambda>(i, slot). 55 < length slot \<and> minConfidence cfg < round2 (slot ! 55))
        (zip [0..<length res0] res0))"
  by (simp add: multi_loop_fst slot_body_eq split_def comp_def)

text \<open>
  C5, amended. In multi-pose decode a pose is emitted for a slot if and only if the slot's
  aggregate score (index 55), rounded to two decimals, strictly exceeds the minimum
  confidence; the emitted pose has the slot's index as id and that rounded aggregate score
  as score; the emitted poses are sorted by descending score, stably, and the sorted list
  is cut to the configured maximum.
\<close>

theorem multi_pose_emitted_sorted_truncated:
  "map (\<lambda>b. (body_id b, body_score b)) (fst (multi_loop cs cfg img ib res0 st)) =
     map (\<lambda>(i, slot). (i, round2 (slot ! 55)))
       (filter (\<lambda>(i, slot). 55 < length slot \<and> minConfidence cfg < round2 (slot ! 55))
          (zip [0..<length res0] res0)) \<and>
   fst (parseMultiPose cs cfg img ib res0 st) =
     take (maxDetected cfg) (sort_bodies (fst (multi_loop cs cfg img ib res0 st))) \<and>
   sorted_wrt (\<lambda>a b. body_score b \<le> body_score a) (sort_bodies bs) \<and>
   set (sort_bodies bs) = set bs \<and> length (sort_bodies bs) = length bs \<and>
   filter (\<lambda>b. body_score b = k) (sort_bodies bs) = filter (\<lambda>b. body_score b = k) bs"
  by (simp only: multi_loop_ids_scores parseMultiPose_fst descending_sort_bodies
      set_sort_bodies length_sort_bodies stable_sort_bodies simp_thms)

text \<open>
  The instance: three slots with the aggregate scores 0.9, 0.4 and 0.1, the minimum
  confidence 0.2 and at most two detections: the poses 0.9 and 0.4, in that order.
\<close>

theorem multi_pose_emitted_sorted_truncated_witness:
  "map (\<lambda>b. (body_id b, body_score b))
     (fst (multi_loop sample_coords (example_config\<lparr>maxDetected := 2\<rparr>) (100, 100) (0, 0, 1, 1)
        [slot_of (replicate 17 (1 / 2, 1 / 2, 1 / 10)) (2 / 5),
         slot_of (replicate 17 (1 / 2, 1 / 2, 1 / 10)) (1 / 10),
         slot_of (replicate 17 (1 / 2, 1 / 2, 1 / 10)) (9 / 10)] initial_state))
     = [(0, 2 / 5), (2, 9 / 10)] \<and>
   map (\<lambda>b. (body_id b, body_score b))
     (fst (parseMultiPose sample_coords (example_config\<lparr>maxDetected := 2\<rparr>) (100, 100)
        (0, 0, 1, 1)
        [slot_of (replicate 17 (1 / 2, 1 / 2, 1 / 10)) (2 / 5),
         slot_of (replicate 17 (1 / 2, 1 / 2, 1 / 10)) (1 / 10),
         slot_of (replicate 17 (1 / 2, 1 / 2, 1 / 10)) (9 / 10)] initial_state))
     = [(2, 9 / 10), (0, 2 / 5)]"
proof -
  let ?cfg = "example_config\<lparr>maxDetected := 2\<rparr>"
  let ?res0 = "[slot_of (replicate 17 (1 / 2, 1 / 2, 1 / 10)) (2 / 5),
         slot_of (replicate 17 (1 / 2, 1 / 2, 1 / 10)) (1 / 10),
         slot_of (replicate 17 (1 / 2, 1 / 2, 1 / 10)) (9 / 10)]"
  note inst = multi_pose_emitted_sorted_truncated
    [of sample_coords ?cfg "(100, 100)" "(0, 0, 1, 1)" ?res0 initial_state]
  have ids: "map (\<lambda>b. (body_id b, body_score b))
      (fst (multi_loop sample_coords ?cfg (100, 100) (0, 0, 1, 1) ?res0 initial_state))
      = [(0, 2 / 5), (2, 9 / 10)]"
    using inst
    by (simp add: slot_of_def replicate_numeral round2_def math_round_def floor_rat_numeral
        example_config_def upt_rec)
  have "map (\<lambda>b. (body_id b, body_score b))
      (fst (parseMultiPose sample_coords ?cfg (100, 100) (0, 0, 1, 1) ?res0 initial_state))
      = [(2, 9 / 10), (0, 2 / 5)]"
    by (simp add: eval_defs eval_inputs replicate_numeral upt_17 upt_rec)
  with ids show ?thesis by simp
qed

text \<open>
  C5 as stated fails for the aggregate scores 0.456 and 0.204 and the minimum
  confidence 0.2: the second slot passes the threshold and no pose is emitted for it
  (0.204 rounds to 0.2), and the first pose's score is 0.46, not the aggregate score.
\<close>

theorem multi_pose_score_rounded_before_filter:
  "map (\<lambda>b. (body_id b, body_score b))
     (fst (parseMultiPose sample_coords
        \<lparr>minConfidence = 1 / 5, maxDetected = 2, skipFrames = 5, skipFrame = True\<rparr>
        (100, 100) (0, 0, 1, 1)
        [slot_of (replicate 17 (1 / 2, 1 / 2, 1 / 10)) (57 / 125),
         slot_of (replicate 17 (1 / 2, 1 / 2, 1 / 10)) (51 / 250)] initial_state))
     = [(0, 23 / 50)] \<and>
   slot_of (replicate 17 (1 / 2, 1 / 2, 1 / 10)) (57 / 125) ! 55 = 57 / 125 \<and>
   slot_of (replicate 17 (1 / 2, 1 / 2, 1 / 10)) (51 / 250) ! 55 = 51 / 250 \<and>
   (1 / 5 :: rat) < 51 / 250 \<and> (23 / 50 :: rat) \<noteq> 57 / 125"
  by (simp add: eval_defs replicate_numeral upt_17 upt_rec)

lemma predict_full_iff:
  assumes loaded: "model_loaded st"
    and acc: "accumulated cs input cfg st = (cb, st3)"
    and run: "predict cs sc input cfg st = (bodies, st')"
  shows "FullInference \<in> set (new_inferences st st') \<longleftrightarrow>
         length cb \<noteq> maxDetected cfg \<and> skipFrames cfg < js_incr (skipped st)"
proof (cases "length cb \<noteq> maxDetected cfg \<and> skipFrames cfg < js_incr (skipped st)")
  case True
  let ?st0 = "st3\<lparr>inferences := inferences st3 @ [FullInference]\<rparr>"
  obtain fb st4 where full: "parse_result cs cfg (width input, height input) (0, 0, 1, 1)
      (infer_full input) ?st0 = (fb, st4)"
    by (cases "parse_result cs cfg (width input, height input) (0, 0, 1, 1)
      (infer_full input) ?st0")
  from True predict_full [OF loaded acc _ _ full run]
  have "inferences st' = inferences st
          @ (map CropInference (cachedBoxes (begin_frame cfg st)) @ [FullInference])"
    by simp
  from new_inferences_append [OF this] True show ?thesis by simp
next
  case False
  from predict_no_full [OF loaded acc False run]
  have "inferences st' = inferences st @ map CropInference (cachedBoxes (begin_frame cfg st))"
    by simp
  from new_inferences_append [OF this] False show ?thesis by auto
qed



lemma accumulated_no_box:
  assumes "cachedBoxes (begin_frame cfg st) = []"
  shows "accumulated cs input cfg st = ([], begin_frame cfg st)"
  by (simp add: accumulated_def assms)


















lemma predict_all_Cons:
  "predict_all cs sc ((input, cfg) # fs) st = predict_all cs sc fs (snd (predict cs sc input cfg st))"
  by (simp add: predict_all_def)

lemma predict_all_Nil: "predict_all cs sc [] st = st"
  by (simp add: predict_all_def)

text \<open>
  Frames on which the counter stays at or below the threshold: no full-frame inference,
  and the counter counts them.
\<close>

lemma quiet_frames:
  assumes "model_loaded st"
    and "\<forall>(input, cfg) \<in> set fs. skipFrames cfg = T"
    and "skipped st + length fs \<le> T"
    and "T < 2 ^ 53"
  shows "model_loaded (predict_all cs sc fs st) \<and>
         skipped (predict_all cs sc fs st) = skipped st + length fs \<and>
         (\<exists>xs. inferences (predict_all cs sc fs st) = inferences st @ xs \<and>
               FullInference \<notin> set xs)"
  using assms
proof (induction fs arbitrary: st)
  case Nil
  then show ?case by (simp add: predict_all_Nil)
next
  case (Cons a fs)
  obtain input cfg where a: "a = (input, cfg)" by (cases a)
  obtain bodies st' where run: "predict cs sc input cfg st = (bodies, st')"
    by (cases "predict cs sc input cfg st")
  obtain cb st3 where acc: "accumulated cs input cfg st = (cb, st3)"
    by (cases "accumulated cs input cfg st")
  from Cons.prems a have T: "skipFrames cfg = T" and small: "skipped st < T" by auto
  with Cons.prems(4) have incr: "js_incr (skipped st) = skipped st + 1"
    by (simp add: js_incr_def)
  with small T have "\<not> (length cb \<noteq> maxDetected cfg \<and> skipFrames cfg < js_incr (skipped st))"
    by simp
  note r = predict_no_full [OF Cons.prems(1) acc this run]
  from r incr have loaded': "model_loaded st'" and sk: "skipped st' = skipped st + 1"
    and inf: "inferences st' = inferences st @ map CropInference (cachedBoxes (begin_frame cfg st))"
    by simp_all
  from Cons.prems sk have "\<forall>(input, cfg) \<in> set fs. skipFrames cfg = T"
    "skipped st' + length fs \<le> T" by auto
  from Cons.IH [OF loaded' this Cons.prems(4)] obtain xs where
    "model_loaded (predict_all cs sc fs st')"
    "skipped (predict_all cs sc fs st') = skipped st' + length fs"
    "inferences (predict_all cs sc fs st') = inferences st' @ xs" "FullInference \<notin> set xs"
    by blast
  with sk inf a run show ?case
    by (auto simp: predict_all_Cons)
qed

lemma full_frame_clears:
  assumes "length cb \<noteq> maxDetected cfg" "skipFrames cfg < skipped st3"
  shows "cachedBoxes (snd (full_frame cs input cfg (cb, st3))) = [] \<and>
         skipped (snd (full_frame cs input cfg (cb, st3))) = 0 \<and>
         fst (full_frame cs input cfg (cb, st3)) =
           fst (parse_result cs cfg (width input, height input) (0, 0, 1, 1) (infer_full input)
                  (st3\<lparr>inferences := inferences st3 @ [FullInference]\<rparr>))"
  by (simp add: full_frame_runs [OF assms])

text \<open>
  C7. On every frame with a loaded model, full-frame inference runs if and only if the
  number of poses accumulated from the cached regions differs from the configured maximum
  and the staleness counter, incremented for the frame, exceeds the refresh threshold.
  When it runs, the frame's result is the full-frame decode alone, the staleness counter
  is 0 after the frame, and the full-frame step leaves no cached region (after the frame
  the cache holds only regions of the new poses, and none with tracking disabled). After
  a full-frame pass (counter 0) and a threshold \<open>T\<close> (below \<open>2^53\<close>, the range in which
  the counter counts), the next \<open>T\<close> frames run no full-frame inference, and frame
  \<open>T + 1\<close> runs it if and only if its accumulated pose count differs from the maximum.
\<close>

theorem full_frame_inference_condition:
  "(model_loaded st \<and> predict cs sc input cfg st = (bodies, st') \<longrightarrow>
      skipped (snd (accumulated cs input cfg st)) = js_incr (skipped st) \<and>
      (FullInference \<in> set (new_inferences st st') \<longleftrightarrow>
         length (fst (accumulated cs input cfg st)) \<noteq> maxDetected cfg \<and>
         skipFrames cfg < skipped (snd (accumulated cs input cfg st)))) \<and>
   (model_loaded st \<and> predict cs sc input cfg st = (bodies, st') \<and>
    FullInference \<in> set (new_inferences st st') \<longrightarrow>
      bodies = fst (parse_result cs cfg (width input, height input) (0, 0, 1, 1)
                      (infer_full input)
                      ((snd (accumulated cs input cfg st))
                         \<lparr>inferences := inferences (snd (accumulated cs input cfg st))
                                          @ [FullInference]\<rparr>)) \<and>
      skipped st' = 0 \<and>
      cachedBoxes (snd (full_frame cs input cfg (accumulated cs input cfg st))) = [] \<and>
      cachedBoxes st' =
        (if skipFrame cfg
         then map (\<lambda>b. sc (map position (keypoints_of st' b)) (3 / 2) (width input, height input))
                (filter (\<lambda>b. 10 < length (keypoints_of st' b)) bodies)
         else [])) \<and>
   (model_loaded st \<and> skipped st = 0 \<and> T < 2 ^ 53 \<and> length fs = T \<and>
    (\<forall>(f, c) \<in> set fs. skipFrames c = T) \<and> skipFrames cfg = T \<and>
    predict cs sc input cfg (predict_all cs sc fs st) = (bodies, st') \<longrightarrow>
      FullInference \<notin> set (new_inferences st (predict_all cs sc fs st)) \<and>
      skipped (predict_all cs sc fs st) = T \<and>
      (FullInference \<in> set (new_inferences (predict_all cs sc fs st) st') \<longleftrightarrow>
         length (fst (accumulated cs input cfg (predict_all cs sc fs st))) \<noteq> maxDetected cfg))"
proof (intro conjI impI)
  assume a: "model_loaded st \<and> predict cs sc input cfg st = (bodies, st')"
  obtain cb st3 where acc: "accumulated cs input cfg st = (cb, st3)"
    by (cases "accumulated cs input cfg st")
  from accumulated_state [OF acc] acc
  show "skipped (snd (accumulated cs input cfg st)) = js_incr (skipped st)" by simp
  from a predict_full_iff [OF _ acc, of sc bodies st'] accumulated_state [OF acc] acc
  show "FullInference \<in> set (new_inferences st st') \<longleftrightarrow>
         length (fst (accumulated cs input cfg st)) \<noteq> maxDetected cfg \<and>
         skipFrames cfg < skipped (snd (accumulated cs input cfg st))"
    by simp
next
  assume a: "model_loaded st \<and> predict cs sc input cfg st = (bodies, st') \<and>
    FullInference \<in> set (new_inferences st st')"
  obtain cb st3 where acc: "accumulated cs input cfg st = (cb, st3)"
    by (cases "accumulated cs input cfg st")
  let ?st0 = "st3\<lparr>inferences := inferences st3 @ [FullInference]\<rparr>"
  obtain fb st4 where full: "parse_result cs cfg (width input, height input) (0, 0, 1, 1)
      (infer_full input) ?st0 = (fb, st4)"
    by (cases "parse_result cs cfg (width input, height input) (0, 0, 1, 1)
      (infer_full input) ?st0")
  from a predict_full_iff [OF _ acc, of sc bodies st']
  have due: "length cb \<noteq> maxDetected cfg" "skipFrames cfg < js_incr (skipped st)" by simp_all
  from a have loaded: "model_loaded st" and run: "predict cs sc input cfg st = (bodies, st')"
    by simp_all
  note r = predict_full [OF loaded acc due full run]
  from due accumulated_state [OF acc] have due3: "skipFrames cfg < skipped st3" by simp
  note c = full_frame_clears [OF due(1) due3, of cs input]
  from r full acc
  show "bodies = fst (parse_result cs cfg (width input, height input) (0, 0, 1, 1)
                      (infer_full input)
                      ((snd (accumulated cs input cfg st))
                         \<lparr>inferences := inferences (snd (accumulated cs input cfg st))
                                          @ [FullInference]\<rparr>))"
    by simp
  from r show "skipped st' = 0" by simp
  from c acc show "cachedBoxes (snd (full_frame cs input cfg (accumulated cs input cfg st))) = []"
    by simp
  from r show "cachedBoxes st' =
        (if skipFrame cfg
         then map (\<lambda>b. sc (map position (keypoints_of st' b)) (3 / 2) (width input, height input))
                (filter (\<lambda>b. 10 < length (keypoints_of st' b)) bodies)
         else [])"
    by simp
next
  assume a: "model_loaded st \<and> skipped st = 0 \<and> T < 2 ^ 53 \<and> length fs = T \<and>
    (\<forall>(f, c) \<in> set fs. skipFrames c = T) \<and> skipFrames cfg = T \<and>
    predict cs sc input cfg (predict_all cs sc fs st) = (bodies, st')"
  let ?stT = "predict_all cs sc fs st"
  from a have "model_loaded st" "\<forall>(f, c) \<in> set fs. skipFrames c = T"
    "skipped st + length fs \<le> T" "T < 2 ^ 53"
    by simp_all
  from quiet_frames [OF this, of cs sc] a obtain xs where
    q: "model_loaded ?stT" "skipped ?stT = T" "inferences ?stT = inferences st @ xs"
      "FullInference \<notin> set xs"
    by auto
  from new_inferences_append [OF q(3)] q(4)
  show "FullInference \<notin> set (new_inferences st ?stT)" by simp
  from q show "skipped ?stT = T" by simp
  obtain cb st3 where acc: "accumulated cs input cfg ?stT = (cb, st3)"
    by (cases "accumulated cs input cfg ?stT")
  from a have run: "predict cs sc input cfg ?stT = (bodies, st')" by simp
  from a q(2) have "js_incr (skipped ?stT) = T + 1" by (simp add: js_incr_def)
  with predict_full_iff [OF q(1) acc run] a acc
  show "FullInference \<in> set (new_inferences ?stT st') \<longleftrightarrow>
         length (fst (accumulated cs input cfg ?stT)) \<noteq> maxDetected cfg"
    by simp
qed

text \<open>
  The instance: a single-pose model, tracking enabled, at most one detection, threshold
  \<open>T = 1\<close>. On the first frame full-frame inference runs and finds a pose of two
  keypoints, so no region is cached; the next frame (\<open>T\<close> frames) runs none; the frame
  after it (frame \<open>T + 1\<close>) runs it again.
\<close>

theorem full_frame_inference_condition_witness:
  "(case predict sample_coords scale (frame_of 100 100 two_keypoints)
          (example_config\<lparr>skipFrames := 1\<rparr>) initial_state of
      (bodies1, st1) \<Rightarrow>
        model_loaded initial_state \<and>
        FullInference \<in> set (new_inferences initial_state st1) \<and>
        skipped st1 = 0 \<and> model_loaded st1 \<and>
        (case predict sample_coords scale (frame_of 100 100 two_keypoints)
                (example_config\<lparr>skipFrames := 1\<rparr>)
                (predict_all sample_coords scale
                   [(frame_of 100 100 two_keypoints, example_config\<lparr>skipFrames := 1\<rparr>)] st1) of
           (bodies3, st3) \<Rightarrow>
             FullInference \<notin> set (new_inferences st1
                (predict_all sample_coords scale
                   [(frame_of 100 100 two_keypoints, example_config\<lparr>skipFrames := 1\<rparr>)] st1)) \<and>
             skipped (predict_all sample_coords scale
                   [(frame_of 100 100 two_keypoints, example_config\<lparr>skipFrames := 1\<rparr>)] st1) = 1 \<and>
             FullInference \<in> set (new_inferences
                (predict_all sample_coords scale
                   [(frame_of 100 100 two_keypoints, example_config\<lparr>skipFrames := 1\<rparr>)] st1)
                st3)))"
proof -
  let ?F = "frame_of 100 100 two_keypoints"
  let ?C = "example_config\<lparr>skipFrames := 1\<rparr>"
  let ?r1 = "predict sample_coords scale ?F ?C initial_state"
  let ?st1 = "snd ?r1"
  let ?stT = "predict_all sample_coords scale [(?F, ?C)] ?st1"
  let ?r3 = "predict sample_coords scale ?F ?C ?stT"
  have run1: "?r1 = (fst ?r1, ?st1)" and run3: "?r3 = (fst ?r3, snd ?r3)" by simp_all
  have f1: "model_loaded initial_state" by (simp add: initial_state_def)
  have f2: "FullInference \<in> set (new_inferences initial_state ?st1)"
    by (simp add: eval_defs eval_inputs replicate_numeral)
  have f4: "model_loaded ?st1"
    by (simp add: eval_defs eval_inputs replicate_numeral)
  note inst1 = full_frame_inference_condition
    [of initial_state sample_coords scale ?F ?C "fst ?r1" ?st1 0 "[]"]
  from inst1 f1 f2 run1 have f3: "skipped ?st1 = 0" by blast
  have T: "(1::nat) < 2 ^ 53" "length [(?F, ?C)] = 1"
    "\<forall>(f, c) \<in> set [(?F, ?C)]. skipFrames c = 1" "skipFrames ?C = 1"
    by simp_all
  note inst3 = full_frame_inference_condition
    [of ?st1 sample_coords scale ?F ?C "fst ?r3" "snd ?r3" 1 "[(?F, ?C)]"]
  from inst3 f4 f3 T run3 have
    c1: "FullInference \<notin> set (new_inferences ?st1 ?stT)"
    and c2: "skipped ?stT = 1"
    and c3: "FullInference \<in> set (new_inferences ?stT (snd ?r3)) \<longleftrightarrow>
         length (fst (accumulated sample_coords ?F ?C ?stT)) \<noteq> maxDetected ?C"
    by blast+
  have e: "length (fst (accumulated sample_coords ?F ?C ?stT)) \<noteq> maxDetected ?C"
    by (simp add: eval_defs eval_inputs replicate_numeral)
  with c3 have c4: "FullInference \<in> set (new_inferences ?stT (snd ?r3))" by simp
  from f1 f2 f3 f4 c1 c2 c4 show ?thesis
    by (simp only: case_prod_unfold simp_thms)
qed

text \<open>
  C10, amended. On the first frame after the module is loaded (the staleness counter at
  its initial value \<open>Number.MAX_SAFE_INTEGER\<close>, no cached region), predict with a loaded
  model runs full-frame inference, whatever the tracking flag, if and only if the
  configured maximum of detections is not 0 and the refresh threshold is below \<open>2^53\<close>
  (the counter's value after its first increment).
\<close>

theorem first_frame_runs_full_inference:
  assumes "model_loaded st"
    and "skipped st = MAX_SAFE_INTEGER"
    and "cachedBoxes st = []"
    and "predict cs sc input cfg st = (bodies, st')"
  shows "FullInference \<in> set (new_inferences st st') \<longleftrightarrow>
         maxDetected cfg \<noteq> 0 \<and> skipFrames cfg < 2 ^ 53"
proof -
  from assms(3) have "cachedBoxes (begin_frame cfg st) = []"
    by (simp add: begin_frame_fields)
  then have acc: "accumulated cs input cfg st = ([], begin_frame cfg st)"
    by (rule accumulated_no_box)
  from assms(2) have "js_incr (skipped st) = 2 ^ 53"
    by (simp add: js_incr_def MAX_SAFE_INTEGER_def)
  with predict_full_iff [OF assms(1) acc assms(4)] show ?thesis by auto
qed

text \<open>The instance: the first frame, the threshold 5, with tracking enabled and disabled.\<close>

theorem first_frame_runs_full_inference_witness:
  "model_loaded initial_state \<and> skipped initial_state = MAX_SAFE_INTEGER \<and>
   cachedBoxes initial_state = [] \<and>
   FullInference \<in> set (new_inferences initial_state
      (snd (predict sample_coords scale (frame_of 100 100 two_keypoints) example_config
              initial_state))) \<and>
   FullInference \<in> set (new_inferences initial_state
      (snd (predict sample_coords scale (frame_of 100 100 two_keypoints)
              (example_config\<lparr>skipFrame := False\<rparr>) initial_state)))"
proof -
  let ?F = "frame_of 100 100 two_keypoints"
  have i: "model_loaded initial_state" "skipped initial_state = MAX_SAFE_INTEGER"
    "cachedBoxes initial_state = []"
    by (simp_all add: initial_state_def)
  have c: "maxDetected example_config \<noteq> 0 \<and> skipFrames example_config < 2 ^ 53"
    "maxDetected (example_config\<lparr>skipFrame := False\<rparr>) \<noteq> 0 \<and>
     skipFrames (example_config\<lparr>skipFrame := False\<rparr>) < 2 ^ 53"
    by (simp_all add: example_config_def)
  have r: "predict sample_coords scale ?F cfg initial_state =
      (fst (predict sample_coords scale ?F cfg initial_state),
       snd (predict sample_coords scale ?F cfg initial_state))" for cfg
    by simp
  from first_frame_runs_full_inference [OF i r] c i show ?thesis
    by blast
qed

text \<open>
  C10 as stated fails for the refresh threshold \<open>2^53 = 9007199254740992\<close>: the
  counter starts at \<open>2^53 - 1\<close>, is incremented to \<open>2^53\<close>, and does not exceed the
  threshold; the first frame runs no inference and returns no pose.
\<close>

theorem first_frame_without_full_inference:
  "(case predict sample_coords scale
          (frame_of 100 100 (SinglePose (replicate 17 (1 / 2, 1 / 2, 9 / 10))))
          \<lparr>minConfidence = 1 / 5, maxDetected = 1, skipFrames = 9007199254740992,
            skipFrame = True\<rparr>
          initial_state of
      (bodies, st') \<Rightarrow>
        model_loaded initial_state \<and> cachedBoxes initial_state = [] \<and>
        skipped initial_state = 9007199254740991 \<and>
        FullInference \<notin> set (new_inferences initial_state st') \<and> bodies = [])"
  by (simp add: eval_defs replicate_numeral)

lemma fold_min_eq: "fold min xs (a :: rat) = Min (insert a (set xs))"
proof (induction xs arbitrary: a)
  case Nil
  then show ?case by simp
next
  case (Cons x xs)
  have "Min (insert (min x a) (set xs)) = Min (insert a (insert x (set xs)))"
    by (cases "set xs = {}") (simp_all add: min.assoc min.commute min.left_commute)
  with Cons show ?case by simp
qed

lemma fold_max_eq: "fold max xs (a :: rat) = Max (insert a (set xs))"
proof (induction xs arbitrary: a)
  case Nil
  then show ?case by simp
next
  case (Cons x xs)
  have "Max (insert (max x a) (set xs)) = Max (insert a (insert x (set xs)))"
    by (cases "set xs = {}") (simp_all add: max.assoc max.commute max.left_commute)
  with Cons show ?case by simp
qed

lemma fold_min_hd: "xs \<noteq> [] \<Longrightarrow> fold min xs (hd xs) = Min (set (xs :: rat list))"
  by (cases xs) (simp_all add: fold_min_eq insert_absorb)

lemma fold_max_hd: "xs \<noteq> [] \<Longrightarrow> fold max xs (hd xs) = Max (set (xs :: rat list))"
  by (cases xs) (simp_all add: fold_max_eq insert_absorb)

text \<open>One axis of the modelled region: the interval, scaled about its centre, holds its points.\<close>

lemma padded_interval:
  fixes v lo hi d :: rat
  assumes "lo \<le> v" "v \<le> hi" "0 < d"
  shows "((lo + hi) / 2 - 3 / 2 * (hi - lo) / 2) / d \<le> v / d \<and>
         v / d \<le> ((lo + hi) / 2 + 3 / 2 * (hi - lo) / 2) / d \<and>
         ((lo + hi) / 2 + 3 / 2 * (hi - lo) / 2) / d - ((lo + hi) / 2 - 3 / 2 * (hi - lo) / 2) / d
           = 3 / 2 * ((hi - lo) / d)"
proof -
  have "(lo + hi) / 2 - 3 / 2 * (hi - lo) / 2 \<le> v" "v \<le> (lo + hi) / 2 + 3 / 2 * (hi - lo) / 2"
    using assms(1,2) by (simp_all add: field_simps)
  then have "((lo + hi) / 2 - 3 / 2 * (hi - lo) / 2) / d \<le> v / d"
    "v / d \<le> ((lo + hi) / 2 + 3 / 2 * (hi - lo) / 2) / d"
    using assms(3) by (simp_all add: divide_right_mono)
  moreover have "((lo + hi) / 2 + 3 / 2 * (hi - lo) / 2) / d
      - ((lo + hi) / 2 - 3 / 2 * (hi - lo) / 2) / d = 3 / 2 * ((hi - lo) / d)"
    using assms(3) by (simp add: field_simps)
  ultimately show ?thesis by simp
qed

lemma scale_region:
  assumes p: "p \<in> set pts" and w: "0 < w" and h: "0 < h"
    and sc: "scale pts (3 / 2) (w, h) = (y0, x0, y1, x1)"
  shows "x0 \<le> of_int (fst p) / of_nat w \<and> of_int (fst p) / of_nat w \<le> x1 \<and>
         y0 \<le> of_int (snd p) / of_nat h \<and> of_int (snd p) / of_nat h \<le> y1 \<and>
         x1 - x0 = 3 / 2 * ((Max ((\<lambda>p. of_int (fst p)) ` set pts)
                              - Min ((\<lambda>p. of_int (fst p)) ` set pts)) / of_nat w) \<and>
         y1 - y0 = 3 / 2 * ((Max ((\<lambda>p. of_int (snd p)) ` set pts)
                              - Min ((\<lambda>p. of_int (snd p)) ` set pts)) / of_nat h)"
proof -
  let ?xs = "map (\<lambda>p. of_int (fst p) :: rat) pts"
  let ?ys = "map (\<lambda>p. of_int (snd p) :: rat) pts"
  from p have ne: "?xs \<noteq> []" "?ys \<noteq> []" by auto
  have mx: "fold min ?xs (hd ?xs) = Min (set ?xs)" "fold max ?xs (hd ?xs) = Max (set ?xs)"
    and my: "fold min ?ys (hd ?ys) = Min (set ?ys)" "fold max ?ys (hd ?ys) = Max (set ?ys)"
    by (rule fold_min_hd fold_max_hd, rule ne)+
  have px: "Min (set ?xs) \<le> of_int (fst p)" "of_int (fst p) \<le> Max (set ?xs)"
    and py: "Min (set ?ys) \<le> of_int (snd p)" "of_int (snd p) \<le> Max (set ?ys)"
    using p by simp_all
  from w h have d: "(0 :: rat) < of_nat w" "(0 :: rat) < of_nat h" by simp_all
  from sc have
    x0: "x0 = ((Min (set ?xs) + Max (set ?xs)) / 2 - 3 / 2 * (Max (set ?xs) - Min (set ?xs)) / 2)
              / of_nat w"
    and x1: "x1 = ((Min (set ?xs) + Max (set ?xs)) / 2 + 3 / 2 * (Max (set ?xs) - Min (set ?xs)) / 2)
              / of_nat w"
    and y0: "y0 = ((Min (set ?ys) + Max (set ?ys)) / 2 - 3 / 2 * (Max (set ?ys) - Min (set ?ys)) / 2)
              / of_nat h"
    and y1: "y1 = ((Min (set ?ys) + Max (set ?ys)) / 2 + 3 / 2 * (Max (set ?ys) - Min (set ?ys)) / 2)
              / of_nat h"
    unfolding scale_def Let_def mx my by simp_all
  from padded_interval [OF px d(1)] padded_interval [OF py d(2)]
  show ?thesis unfolding x0 x1 y0 y1 by simp
qed

text \<open>
  C8, amended. With a loaded model and tracking enabled, after each frame the cached
  regions are, in order, one for each of the frame's returned poses that has more than
  10 keypoints (at least 11): what the box-scaling collaborator returns for the pose's
  pixel keypoints, the factor 1.5 and the image's width and height. With tracking
  disabled the cached regions are empty after the frame, whatever they were. For the
  box-scaling collaborator as the specification describes it, on an image of positive
  width and height, the region \<open>(y0, x0, y1, x1)\<close> encloses every one of the keypoints
  in normalized coordinates, and is 1.5 times as wide and as high as their bounding box.
\<close>

theorem cached_regions_after_frame:
  "(model_loaded st \<and> predict cs sc input cfg st = (bodies, st') \<and> skipFrame cfg \<longrightarrow>
      cachedBoxes st' =
        map (\<lambda>b. sc (map position (keypoints_of st' b)) (3 / 2) (width input, height input))
          (filter (\<lambda>b. 10 < length (keypoints_of st' b)) bodies) \<and>
      length (cachedBoxes st') = length (filter (\<lambda>b. 10 < length (keypoints_of st' b)) bodies)) \<and>
   (model_loaded st \<and> predict cs sc input cfg st = (bodies, st') \<and> \<not> skipFrame cfg \<longrightarrow>
      cachedBoxes st' = []) \<and>
   (p \<in> set pts \<and> 0 < w \<and> 0 < h \<and> scale pts (3 / 2) (w, h) = (y0, x0, y1, x1) \<longrightarrow>
      x0 \<le> of_int (fst p) / of_nat w \<and> of_int (fst p) / of_nat w \<le> x1 \<and>
      y0 \<le> of_int (snd p) / of_nat h \<and> of_int (snd p) / of_nat h \<le> y1 \<and>
      x1 - x0 = 3 / 2 * ((Max ((\<lambda>p. of_int (fst p)) ` set pts)
                           - Min ((\<lambda>p. of_int (fst p)) ` set pts)) / of_nat w) \<and>
      y1 - y0 = 3 / 2 * ((Max ((\<lambda>p. of_int (snd p)) ` set pts)
                           - Min ((\<lambda>p. of_int (snd p)) ` set pts)) / of_nat h))"
proof (intro conjI impI)
  assume a: "model_loaded st \<and> predict cs sc input cfg st = (bodies, st') \<and> skipFrame cfg"
  with predict_cache [of st cs sc input cfg bodies st']
  show c: "cachedBoxes st' =
        map (\<lambda>b. sc (map position (keypoints_of st' b)) (3 / 2) (width input, height input))
          (filter (\<lambda>b. 10 < length (keypoints_of st' b)) bodies)"
    by simp
  show "length (cachedBoxes st') = length (filter (\<lambda>b. 10 < length (keypoints_of st' b)) bodies)"
    by (simp add: c)
next
  assume "model_loaded st \<and> predict cs sc input cfg st = (bodies, st') \<and> \<not> skipFrame cfg"
  with predict_cache [of st cs sc input cfg bodies st'] show "cachedBoxes st' = []"
    by simp
next
  assume "p \<in> set pts \<and> 0 < w \<and> 0 < h \<and> scale pts (3 / 2) (w, h) = (y0, x0, y1, x1)"
  then have "p \<in> set pts" "0 < w" "0 < h" "scale pts (3 / 2) (w, h) = (y0, x0, y1, x1)"
    by simp_all
  from scale_region [OF this]
  show "x0 \<le> of_int (fst p) / of_nat w" "of_int (fst p) / of_nat w \<le> x1"
    "y0 \<le> of_int (snd p) / of_nat h" "of_int (snd p) / of_nat h \<le> y1"
    "x1 - x0 = 3 / 2 * ((Max ((\<lambda>p. of_int (fst p)) ` set pts)
                           - Min ((\<lambda>p. of_int (fst p)) ` set pts)) / of_nat w)"
    "y1 - y0 = 3 / 2 * ((Max ((\<lambda>p. of_int (snd p)) ` set pts)
                           - Min ((\<lambda>p. of_int (snd p)) ` set pts)) / of_nat h)"
    by simp_all
qed

text \<open>
  The instance: tracking enabled, two poses of 17 keypoints on the first frame, two cached
  regions after it; then the same frame with tracking disabled, and no cached region
  after it; and the region of the pixel keypoints \<open>(25, 50)\<close> and \<open>(120, 75)\<close> on an
  image of 100 by 100 pixels.
\<close>

theorem cached_regions_after_frame_witness:
  "(case predict sample_coords scale (frame_of 100 100 two_poses)
          (example_config\<lparr>maxDetected := 2\<rparr>) initial_state of
      (bodies1, st1) \<Rightarrow>
        model_loaded initial_state \<and> skipFrame (example_config\<lparr>maxDetected := 2\<rparr>) \<and>
        map (\<lambda>b. length (keypoints_of st1 b)) bodies1 = [17, 17] \<and>
        length (cachedBoxes st1) = 2 \<and>
        (case predict sample_coords scale (frame_of 100 100 two_poses)
                (example_config\<lparr>maxDetected := 2, skipFrame := False\<rparr>) st1 of
           (bodies2, st2) \<Rightarrow>
             model_loaded st1 \<and>
             \<not> skipFrame (example_config\<lparr>maxDetected := 2, skipFrame := False\<rparr>) \<and>
             cachedBoxes st2 = [])) \<and>
   scale [(25, 50), (120, 75)] (3 / 2) (100, 100) = (7 / 16, 1 / 80, 13 / 16, 23 / 16) \<and>
   (1 / 80 :: rat) \<le> of_int (fst (25 :: int, 50 :: int)) / of_nat 100 \<and>
   (of_int (fst (25 :: int, 50 :: int)) / of_nat 100 :: rat) \<le> 23 / 16"
proof -
  let ?F = "frame_of 100 100 two_poses"
  let ?C = "example_config\<lparr>maxDetected := 2\<rparr>"
  let ?D = "example_config\<lparr>maxDetected := 2, skipFrame := False\<rparr>"
  let ?r1 = "predict sample_coords scale ?F ?C initial_state"
  let ?r2 = "predict sample_coords scale ?F ?D (snd ?r1)"
  have run1: "?r1 = (fst ?r1, snd ?r1)" and run2: "?r2 = (fst ?r2, snd ?r2)" by simp_all
  have f1: "model_loaded initial_state" by (simp add: initial_state_def)
  have f2: "skipFrame ?C" "\<not> skipFrame ?D" by (simp_all add: example_config_def)
  have f3: "map (\<lambda>b. length (keypoints_of (snd ?r1) b)) (fst ?r1) = [17, 17]"
    and f4: "model_loaded (snd ?r1)"
    by (simp_all add: eval_defs eval_inputs replicate_numeral upt_17)
  have f5: "scale [(25, 50), (120, 75)] (3 / 2) (100, 100) = (7 / 16, 1 / 80, 13 / 16, 23 / 16)"
    by (simp add: scale_def Let_def)
  have f6: "(25 :: int, 50 :: int) \<in> set [(25, 50), (120, 75)]" "(0 :: nat) < 100" by simp_all
  note inst1 = cached_regions_after_frame
    [of initial_state sample_coords scale ?F ?C "fst ?r1" "snd ?r1"
        "(25, 50)" "[(25, 50), (120, 75)]" 100 100 "7 / 16" "1 / 80" "13 / 16" "23 / 16"]
  note inst2 = cached_regions_after_frame
    [of "snd ?r1" sample_coords scale ?F ?D "fst ?r2" "snd ?r2"]
  from inst1 f1 f2(1) run1 have
    "length (cachedBoxes (snd ?r1)) =
       length (filter (\<lambda>b. 10 < length (keypoints_of (snd ?r1) b)) (fst ?r1))"
    by blast
  also have "\<dots> = length (filter (\<lambda>n. 10 < n) (map (\<lambda>b. length (keypoints_of (snd ?r1) b)) (fst ?r1)))"
    by (simp add: filter_map comp_def)
  also have "\<dots> = 2" by (simp add: f3)
  finally have c1: "length (cachedBoxes (snd ?r1)) = 2" .
  from inst2 f4 f2(2) run2 have c2: "cachedBoxes (snd ?r2) = []" by blast
  from inst1 f5 f6 have c3: "(1 / 80 :: rat) \<le> of_int (fst (25 :: int, 50 :: int)) / of_nat 100"
    "(of_int (fst (25 :: int, 50 :: int)) / of_nat 100 :: rat) \<le> 23 / 16"
    by blast+
  from f1 f2 f3 f4 f5 c1 c2 c3 show ?thesis
    by (simp only: case_prod_unfold simp_thms)
qed

text \<open>
  C8 as stated fails on a first frame whose pose has exactly 10 keypoints, with
  tracking enabled: the pose is returned and no region is cached.
\<close>

theorem ten_keypoints_not_cached:
  "(case predict sample_coords scale
          (frame_of 100 100
             (SinglePose (replicate 10 (1 / 2, 1 / 2, 9 / 10) @ replicate 7 (1 / 2, 1 / 2, 1 / 10))))
          \<lparr>minConfidence = 1 / 5, maxDetected = 1, skipFrames = 5, skipFrame = True\<rparr>
          initial_state of
      (bodies, st') \<Rightarrow>
        map (\<lambda>b. length (keypoints_of st' b)) bodies = [10] \<and>
        length (filter (\<lambda>b. 10 \<le> length (keypoints_of st' b)) bodies) = 1 \<and>
        cachedBoxes st' = [] \<and>
        length (cachedBoxes st') \<noteq> length (filter (\<lambda>b. 10 \<le> length (keypoints_of st' b)) bodies))"
  by (simp add: eval_defs replicate_numeral)

text \<open>
  C4, as the code behaves. The pose that single-pose decode returns holds the module's
  \<^verbatim>\<open>keypoints\<close> array itself, where multi-pose decode pushes a copy
  (\<^verbatim>\<open>[...keypoints]\<close>); the next decode clears and refills the array. Two frames of a
  single-pose model, the refresh threshold 0: the pose returned for the first frame has
  two keypoints when it is returned and none once the second frame is decoded.
\<close>

theorem returned_pose_keypoints_overwritten:
  "(case predict sample_coords scale
          (frame_of 100 100
             (SinglePose ([(1 / 4, 1 / 4, 1 / 10), (1 / 2, 1 / 4, 3 / 10), (3 / 4, 6 / 5, 1 / 2)]
                          @ replicate 14 (1 / 2, 1 / 2, 1 / 10))))
          \<lparr>minConfidence = 1 / 5, maxDetected = 1, skipFrames = 0, skipFrame = False\<rparr>
          initial_state of
      (bodies1, st1) \<Rightarrow>
        (case predict sample_coords scale
                (frame_of 100 100 (SinglePose (replicate 17 (1 / 2, 1 / 2, 1 / 10))))
                \<lparr>minConfidence = 1 / 5, maxDetected = 1, skipFrames = 0, skipFrame = False\<rparr>
                st1 of
           (bodies2, st2) \<Rightarrow>
             length bodies1 = 1 \<and>
             map score (keypoints_of st1 (hd bodies1)) = [3 / 10, 1 / 2] \<and>
             keypoints_of st2 (hd bodies1) = [] \<and>
             keypoints_of st2 (hd bodies1) \<noteq> keypoints_of st1 (hd bodies1)))"
  by (simp add: eval_defs replicate_numeral)

end
